theory Spec2Isabelle
  imports Main
begin

section \<open>JavaScript values\<close>

text \<open>
  The controller \<^verbatim>\<open>packages/api/lib/controllers/boxesController.js\<close> reads request
  bodies that were parsed from JSON. A value is one of the JSON shapes or
  \<^verbatim>\<open>undefined\<close> (a property that is not there). An object is the list of its
  properties, the first binding of a key being the property's value.

  A number is carried as the text JavaScript prints for it (\<^verbatim>\<open>String(n)\<close>):
  the controller only tests numbers for truthiness, splices them into SQL text and
  hands them to the store, so nothing else of a double is needed. The numbers
  \<^verbatim>\<open>0\<close>, \<^verbatim>\<open>-0\<close> (both printed \<^verbatim>\<open>0\<close>) and \<^verbatim>\<open>NaN\<close> are the falsy ones.
\<close>

datatype jsval =
    Undefined
  | Null
  | JBool bool
  | JNum string
  | JStr string
  | JArr "jsval list"
  | JObj "(string \<times> jsval) list"

type_synonym obj = "(string \<times> jsval) list"

datatype error =
    TypeError string
  | Error string
  | StoreError string

text \<open>\<^verbatim>\<open>if (v)\<close>, \<^verbatim>\<open>v ? a : b\<close>, \<^verbatim>\<open>v || w\<close>, \<^verbatim>\<open>v && w\<close>: the truthiness of a value.\<close>

fun truthy :: "jsval \<Rightarrow> bool" where
  "truthy Undefined = False"
| "truthy Null = False"
| "truthy (JBool b) = b"
| "truthy (JNum t) = (t \<noteq> ''0'' \<and> t \<noteq> ''NaN'')"
| "truthy (JStr s) = (s \<noteq> [])"
| "truthy (JArr xs) = True"
| "truthy (JObj kvs) = True"

text \<open>\<^verbatim>\<open>a || b\<close>\<close>

definition js_or :: "jsval \<Rightarrow> jsval \<Rightarrow> jsval" where
  "js_or a b = (if truthy a then a else b)"

text \<open>\<^verbatim>\<open>o.k\<close> on an object: \<^verbatim>\<open>undefined\<close> when the object has no such property.\<close>

definition get :: "obj \<Rightarrow> string \<Rightarrow> jsval" where
  "get kvs k = (case map_of kvs k of None \<Rightarrow> Undefined | Some v \<Rightarrow> v)"

text \<open>
  \<^verbatim>\<open>v.k\<close> on a value that is neither \<^verbatim>\<open>undefined\<close> nor \<^verbatim>\<open>null\<close>. None of the
  property names the controller reads (\<^verbatim>\<open>lat\<close>, \<^verbatim>\<open>lng\<close>, \<^verbatim>\<open>id\<close>, \<^verbatim>\<open>_id\<close>,
  \<^verbatim>\<open>title\<close>, \<^verbatim>\<open>unit\<close>, \<^verbatim>\<open>sensorType\<close>, \<^verbatim>\<open>status\<close>, \<^verbatim>\<open>icon\<close>, \<^verbatim>\<open>deleted\<close>,
  \<^verbatim>\<open>edited\<close>, \<^verbatim>\<open>new\<close>) is a built-in property of a string, number, boolean or
  array, so those give \<^verbatim>\<open>undefined\<close>.
\<close>

fun field :: "jsval \<Rightarrow> string \<Rightarrow> jsval" where
  "field (JObj kvs) k = get kvs k"
| "field v k = Undefined"

text \<open>\<^verbatim>\<open>v.k\<close> in general: reading a property of \<^verbatim>\<open>undefined\<close> or \<^verbatim>\<open>null\<close> throws.\<close>

definition nullish :: "jsval \<Rightarrow> bool" where
  "nullish v = (v = Undefined \<or> v = Null)"

definition read_prop :: "jsval \<Rightarrow> string \<Rightarrow> error + jsval" where
  "read_prop v k =
     (if nullish v then Inl (TypeError (''Cannot read properties of undefined (reading '' @ k @ '')''))
      else Inr (field v k))"

text \<open>Texts joined by commas.\<close>

fun join_comma :: "string list \<Rightarrow> string" where
  "join_comma [] = []"
| "join_comma [s] = s"
| "join_comma (s # t # ss) = s @ '','' @ join_comma (t # ss)"

text \<open>
  \<^verbatim>\<open>`${v}`\<close>: the text a template literal splices in, or the TypeError it throws.
  A plain object prints as \<^verbatim>\<open>[object Object]\<close> through the \<^verbatim>\<open>toString\<close> it inherits;
  an object parsed from JSON that has a key \<^verbatim>\<open>toString\<close> of its own hides it with a
  value that cannot be called, and converting such an object throws. An array prints
  its elements joined by commas (\<open>js_join\<close>), \<^verbatim>\<open>undefined\<close> and \<^verbatim>\<open>null\<close> elements as
  the empty text, and throws where an element does.
\<close>

fun js_toString :: "jsval \<Rightarrow> error + string"
  and js_join :: "jsval list \<Rightarrow> error + string" where
  "js_toString Undefined = Inr ''undefined''"
| "js_toString Null = Inr ''null''"
| "js_toString (JBool b) = Inr (if b then ''true'' else ''false'')"
| "js_toString (JNum t) = Inr t"
| "js_toString (JStr s) = Inr s"
| "js_toString (JArr xs) = js_join xs"
| "js_toString (JObj kvs) =
     (if ''toString'' \<in> set (map fst kvs)
      then Inl (TypeError ''Cannot convert object to primitive value'')
      else Inr ''[object Object]'')"
| "js_join [] = Inr []"
| "js_join (x # xs) =
     (case (if nullish x then Inr [] else js_toString x) of
        Inl e \<Rightarrow> Inl e
      | Inr s \<Rightarrow>
          (if xs = [] then Inr s
           else (case js_join xs of Inl e \<Rightarrow> Inl e | Inr t \<Rightarrow> Inr (s @ '','' @ t))))"

text \<open>How the message of a TypeError of the engine names a value.\<close>

fun shown :: "jsval \<Rightarrow> string" where
  "shown Undefined = ''undefined''"
| "shown Null = ''null''"
| "shown (JBool b) = (if b then ''true'' else ''false'')"
| "shown (JNum t) = t"
| "shown v = ''object''"

text \<open>
  \<^verbatim>\<open>for (const x of v)\<close>: an array gives its elements, a string its characters,
  anything else is not iterable.
\<close>

fun iterate :: "jsval \<Rightarrow> error + jsval list" where
  "iterate (JArr xs) = Inr xs"
| "iterate (JStr s) = Inr (map (\<lambda>c. JStr [c]) s)"
| "iterate v = Inl (TypeError (shown v @ '' is not iterable''))"

section \<open>The store behind \<^verbatim>\<open>db.query\<close>\<close>

text \<open>
  The controller sends every statement through \<^verbatim>\<open>db.query(text, values)\<close>. What it
  sends is one of a fixed set of SQL texts; the parts of a text that the controller
  computes are the arguments of the constructor.
  \<^item> \<open>UpdateDevice setStatement\<close>: \<^verbatim>\<open>UPDATE "Device" SET ${setStatement} WHERE "id" = $1
    RETURNING *;\<close> where \<open>setStatement\<close> is the text the controller built for the SET
    clause, character for character. The WHERE clause starts a line of its own.
  \<^item> \<open>DeleteSensor\<close>: \<^verbatim>\<open>DELETE FROM "Sensor" WHERE "id" = $1;\<close>
  \<^item> \<open>InsertSensor\<close>: \<^verbatim>\<open>INSERT INTO "Sensor" ("id", "title", "unit", "sensorType", "status",
    "icon", "updatedAt", "deviceId") VALUES ($1, ..., $8);\<close>
  \<^item> \<open>UpdateSensor updateFields u i\<close>: \<^verbatim>\<open>UPDATE "Sensor" SET updateFields, "updatedAt" = $u
    WHERE "id" = $i;\<close> where \<open>updateFields\<close> are the assignments \<^verbatim>\<open>"column" = $n\<close>, in order.
  \<^item> \<open>InsertDevice extra\<close>: \<^verbatim>\<open>INSERT INTO "Device" (id, name, exposure, "useAuth", public,
    status, latitude, longitude, "userId", "updatedAt" extra) VALUES (...) RETURNING id;\<close>
  \<^item> \<open>InsertBoxSensor\<close>: \<^verbatim>\<open>INSERT INTO "Sensor" ("id", "title", "unit", "sensorType",
    "deviceId", "updatedAt") VALUES ($1, ..., $6);\<close>
\<close>

datatype statement =
    Begin
  | Commit
  | Rollback
  | UpdateDevice string
  | DeleteSensor
  | InsertSensor
  | UpdateSensor "(string \<times> nat) list" nat nat
  | InsertDevice "string list"
  | InsertBoxSensor

type_synonym row = obj

record store =
  devices :: "row list"
  sensors :: "row list"

record qresult =
  rows :: "row list"
  rowCount :: nat

text \<open>
  The connection: the rows as the session sees them, the rows as they were when the
  open transaction began (\<open>None\<close> outside a transaction), and every statement
  sent so far, with its bound values, in order.
\<close>

record db =
  store :: store
  saved :: "store option"
  issued :: "(statement \<times> jsval list) list"

type_synonym exec = "statement \<Rightarrow> jsval list \<Rightarrow> store \<Rightarrow> error + (qresult \<times> store)"

type_synonym 'a io = "db \<Rightarrow> (error + 'a) \<times> db"

definition no_rows :: qresult where
  "no_rows = \<lparr>rows = [], rowCount = 0\<rparr>"

definition fresh :: "store \<Rightarrow> db" where
  "fresh s = \<lparr>store = s, saved = None, issued = []\<rparr>"

text \<open>
  Modelled from the spec: \<^verbatim>\<open>require('../db')\<close> is not among the sources. The spec
  (EXTERNAL INTERFACES) gives the engine one collaborator, "a transactional relational
  store reachable via a parameterized-statement execution interface supporting BEGIN,
  arbitrary parameterized statement execution returning affected rows/row data, COMMIT,
  ROLLBACK". \<open>db_query exec\<close> is that interface: BEGIN remembers the rows, ROLLBACK puts
  them back, COMMIT keeps the current ones, and none of the three fails. Any other
  statement is run by \<open>exec\<close>, a parameter: it fails, or gives a result and the new
  rows. A statement that fails changes no row.
\<close>

fun db_query :: "exec \<Rightarrow> statement \<Rightarrow> jsval list \<Rightarrow> qresult io" where
  "db_query exec Begin vals d =
     (Inr no_rows,
      d\<lparr>saved := (case saved d of None \<Rightarrow> Some (store d) | Some s \<Rightarrow> Some s),
        issued := issued d @ [(Begin, vals)]\<rparr>)"
| "db_query exec Commit vals d =
     (Inr no_rows, d\<lparr>saved := None, issued := issued d @ [(Commit, vals)]\<rparr>)"
| "db_query exec Rollback vals d =
     (Inr no_rows,
      d\<lparr>store := (case saved d of None \<Rightarrow> store d | Some s \<Rightarrow> s),
        saved := None,
        issued := issued d @ [(Rollback, vals)]\<rparr>)"
| "db_query exec q vals d =
     (case exec q vals (store d) of
        Inl e \<Rightarrow> (Inl e, d\<lparr>issued := issued d @ [(q, vals)]\<rparr>)
      | Inr (r, s') \<Rightarrow> (Inr r, d\<lparr>store := s', issued := issued d @ [(q, vals)]\<rparr>))"

subsection \<open>Sequencing, \<^verbatim>\<open>throw\<close> and \<^verbatim>\<open>try\<close>/\<^verbatim>\<open>catch\<close>\<close>

definition return_io :: "'a \<Rightarrow> 'a io" where
  "return_io x d = (Inr x, d)"

definition throw :: "error \<Rightarrow> 'a io" where
  "throw e d = (Inl e, d)"

text \<open>\<^verbatim>\<open>const x = await m; f(x)\<close>: a failure of \<open>m\<close> skips \<open>f\<close>.\<close>

definition bind_io :: "'a io \<Rightarrow> ('a \<Rightarrow> 'b io) \<Rightarrow> 'b io" where
  "bind_io m f d = (case m d of (Inl e, d') \<Rightarrow> (Inl e, d') | (Inr x, d') \<Rightarrow> f x d')"

text \<open>\<^verbatim>\<open>try { m } catch (err) { h(err) }\<close>\<close>

definition try_catch :: "'a io \<Rightarrow> (error \<Rightarrow> 'a io) \<Rightarrow> 'a io" where
  "try_catch m h d = (case m d of (Inl e, d') \<Rightarrow> h e d' | (Inr x, d') \<Rightarrow> (Inr x, d'))"

text \<open>An expression that may throw, evaluated inside a sequence.\<close>

definition lift_io :: "error + 'a \<Rightarrow> 'a io" where
  "lift_io r d = (case r of Inl e \<Rightarrow> (Inl e, d) | Inr x \<Rightarrow> (Inr x, d))"

section \<open>The request\<close>

text \<open>
  What a handler reads of \<^verbatim>\<open>req\<close>: \<^verbatim>\<open>req._userParams.boxId\<close>, the properties of
  \<^verbatim>\<open>req.body\<close> and those of \<^verbatim>\<open>req.user\<close>.
\<close>

record request =
  boxId :: jsval
  body :: obj
  user :: obj

section \<open>\<^verbatim>\<open>updateBox\<close>: the device update\<close>

text \<open>
  The object literal \<^verbatim>\<open>updatedDevice\<close>, its keys in the order they are written
  (the order \<^verbatim>\<open>for (const key in updatedDevice)\<close> visits them). \<open>now\<close> is the text
  of \<^verbatim>\<open>new Date().toISOString()\<close>; one request reads the clock as one instant.
\<close>

definition updatedDevice :: "obj \<Rightarrow> string \<Rightarrow> obj" where
  "updatedDevice b now =
     [(''name'', get b ''name''),
      (''updatedAt'', JStr now),
      (''description'', get b ''description''),
      (''exposure'', get b ''exposure''),
      (''useAuth'', JBool True),
      (''model'', get b ''model''),
      (''public'', JBool True),
      (''status'', get b ''status''),
      (''latitude'', if truthy (get b ''location'') then field (get b ''location'') ''lat'' else Undefined),
      (''longitude'', if truthy (get b ''location'') then field (get b ''location'') ''lng'' else Undefined),
      (''userId'', get b ''user_id'')]"

text \<open>The text \<^verbatim>\<open>"key" = 'element',\<close> that one truthy property adds to \<^verbatim>\<open>setStatement\<close>.\<close>

definition fragment :: "string \<Rightarrow> string \<Rightarrow> string" where
  "fragment k t = [CHR 0x22] @ k @ [CHR 0x22] @ '' = '' @ [CHR 0x27] @ t @ [CHR 0x27]"

text \<open>
  The loop over the keys: a falsy element adds nothing, a truthy one is spliced in as
  the template literal prints it, quotes and all; the loop throws where the template
  literal does.
\<close>

fun setStatement_loop :: "obj \<Rightarrow> string \<Rightarrow> error + string" where
  "setStatement_loop [] acc = Inr acc"
| "setStatement_loop ((k, element) # kvs) acc =
     (if truthy element then
        (case js_toString element of
           Inl e \<Rightarrow> Inl e
         | Inr t \<Rightarrow> setStatement_loop kvs (acc @ fragment k t @ '',''))
      else setStatement_loop kvs acc)"

text \<open>\<^verbatim>\<open>setStatement\<close> after the trailing comma is cut.\<close>

definition setStatement :: "obj \<Rightarrow> error + string" where
  "setStatement ud =
     (case setStatement_loop ud [] of
        Inl e \<Rightarrow> Inl e
      | Inr s \<Rightarrow> Inr (if s \<noteq> [] \<and> last s = CHR '','' then butlast s else s))"

text \<open>The text of a SET clause that lists the assignments \<open>asg\<close>, written as the loop writes it.\<close>

definition setText :: "(string \<times> string) list \<Rightarrow> string" where
  "setText asg = join_comma (map (\<lambda>(k, t). fragment k t) asg)"

text \<open>
  The three assignments that come from the properties \<^verbatim>\<open>updatedAt\<close>, \<^verbatim>\<open>useAuth: true\<close> and
  \<^verbatim>\<open>public: true\<close> of \<^verbatim>\<open>updatedDevice\<close>, which are not read from the request.
\<close>

definition fixedAssignments :: "string \<Rightarrow> (string \<times> string) list" where
  "fixedAssignments now = [(''updatedAt'', now), (''useAuth'', ''true''), (''public'', ''true'')]"

section \<open>\<^verbatim>\<open>updateSensor\<close>: the sensor batch\<close>

text \<open>
  \<^verbatim>\<open>if (v !== undefined) { updateFields.push(`"col" = $${values.push(v)}`); }\<close>:
  \<^verbatim>\<open>values.push\<close> returns the new length, which is the placeholder's number.
\<close>

definition pushField ::
  "string \<Rightarrow> jsval \<Rightarrow> (string \<times> nat) list \<times> jsval list \<Rightarrow> (string \<times> nat) list \<times> jsval list" where
  "pushField col v st =
     (case st of (updateFields, values) \<Rightarrow>
        if v \<noteq> Undefined then (updateFields @ [(col, Suc (length values))], values @ [v])
        else (updateFields, values))"

text \<open>
  The body of the loop up to \<^verbatim>\<open>db.query\<close>: the descriptor is destructured, and the
  chain of \<^verbatim>\<open>if\<close>s picks the statement and its values or throws. The last branch
  builds the message of its error with a template literal, which can throw itself.
\<close>

definition sensorQuery :: "jsval \<Rightarrow> string \<Rightarrow> jsval \<Rightarrow> error + (statement \<times> jsval list)" where
  "sensorQuery bid now x =
     (if nullish x then Inl (TypeError (''Cannot destructure property _id of '' @ shown x))
      else
        let v_id = field x ''_id''; title = field x ''title''; unit = field x ''unit'';
            sensorType = field x ''sensorType''; status = field x ''status'';
            icon = field x ''icon''; deleted = field x ''deleted''; edited = field x ''edited'';
            isNew = field x ''new''; updatedAt = JStr now
        in
          if truthy deleted then Inr (DeleteSensor, [v_id])
          else if truthy edited \<and> truthy isNew then
            Inr (InsertSensor, [v_id, title, unit, sensorType, status, icon, updatedAt, bid])
          else if truthy edited \<and> \<not> truthy deleted then
            (case pushField ''icon'' icon (pushField ''status'' status
                   (pushField ''sensorType'' sensorType (pushField ''unit'' unit
                   (pushField ''title'' title ([], []))))) of
               (updateFields, values) \<Rightarrow>
                 Inr (UpdateSensor updateFields (Suc (length values)) (Suc (Suc (length values))),
                      values @ [updatedAt, v_id]))
          else
            (case js_toString v_id of
               Inl e \<Rightarrow> Inl e
             | Inr t \<Rightarrow> Inl (Error (''Invalid operation for sensor with id '' @ t))))"

text \<open>One turn of the loop: build the statement, then \<^verbatim>\<open>await db.query(query, values)\<close>.\<close>

definition updateSensor_step :: "exec \<Rightarrow> jsval \<Rightarrow> string \<Rightarrow> jsval \<Rightarrow> unit io" where
  "updateSensor_step exec bid now x d =
     (case sensorQuery bid now x of
        Inl e \<Rightarrow> (Inl e, d)
      | Inr (query, values) \<Rightarrow>
          (case db_query exec query values d of
             (Inl e, d') \<Rightarrow> (Inl e, d')
           | (Inr r, d') \<Rightarrow> (Inr (), d')))"

fun updateSensor_loop :: "exec \<Rightarrow> jsval \<Rightarrow> string \<Rightarrow> jsval list \<Rightarrow> unit io" where
  "updateSensor_loop exec bid now [] d = (Inr (), d)"
| "updateSensor_loop exec bid now (x # xs) d =
     (case updateSensor_step exec bid now x d of
        (Inl e, d') \<Rightarrow> (Inl e, d')
      | (Inr u, d') \<Rightarrow> updateSensor_loop exec bid now xs d')"

definition updateSensor :: "exec \<Rightarrow> jsval \<Rightarrow> jsval \<Rightarrow> string \<Rightarrow> unit io" where
  "updateSensor exec sensorData bid now d =
     (case iterate sensorData of
        Inl e \<Rightarrow> (Inl e, d)
      | Inr xs \<Rightarrow> updateSensor_loop exec bid now xs d)"

text \<open>\<^verbatim>\<open>result.rows[0]\<close>: \<^verbatim>\<open>undefined\<close> when the statement gave no row.\<close>

definition rows0 :: "qresult \<Rightarrow> jsval" where
  "rows0 r = (case rows r of [] \<Rightarrow> Undefined | x # xs \<Rightarrow> JObj x)"

text \<open>
  \<^verbatim>\<open>updateBox\<close>. The SET text is built before the \<^verbatim>\<open>try\<close>: when that throws, nothing
  is sent. A run that returns gives the body it sent with \<^verbatim>\<open>res.send\<close> and the value
  it returned, \<^verbatim>\<open>result.rows[0]\<close>.
\<close>

definition updateBox :: "exec \<Rightarrow> string \<Rightarrow> request \<Rightarrow> (jsval \<times> jsval) io" where
  "updateBox exec now req =
     (let ud = updatedDevice (body req) now in
      case setStatement ud of
        Inl e \<Rightarrow> throw e
      | Inr sql \<Rightarrow>
          (let updateDeviceQuery = UpdateDevice sql;
               values = [boxId req]
           in
             try_catch
               (bind_io (db_query exec Begin []) (\<lambda>_.
                bind_io (db_query exec updateDeviceQuery values) (\<lambda>result.
                bind_io (updateSensor exec (get (body req) ''sensors'') (boxId req) now) (\<lambda>_.
                bind_io (db_query exec Commit []) (\<lambda>_.
                return_io (JObj [(''code'', JStr ''Ok''), (''data'', JObj ud)], rows0 result))))))
               (\<lambda>err. bind_io (db_query exec Rollback []) (\<lambda>_. throw err))))"

section \<open>\<^verbatim>\<open>postNewBox\<close>: the device creation\<close>

text \<open>\<^verbatim>\<open>s.replace('T', ' ')\<close> replaces the first \<^verbatim>\<open>T\<close>.\<close>

fun replace_first :: "char \<Rightarrow> char \<Rightarrow> string \<Rightarrow> string" where
  "replace_first a b [] = []"
| "replace_first a b (c # cs) = (if c = a then b # cs else c # replace_first a b cs)"

text \<open>\<^verbatim>\<open>new Date().toISOString().slice(0, 19).replace('T', ' ')\<close>\<close>

definition sqlTimestamp :: "string \<Rightarrow> string" where
  "sqlTimestamp now = replace_first (CHR ''T'') (CHR '' '') (take 19 now)"

text \<open>
  The object literal \<^verbatim>\<open>newDevice\<close>; \<open>uuid\<close> is what \<^verbatim>\<open>uuidv4()\<close> gave. Reading
  \<^verbatim>\<open>req.body.location.lat\<close> throws when the body has no location.
\<close>

definition newDevice :: "string \<Rightarrow> string \<Rightarrow> request \<Rightarrow> error + obj" where
  "newDevice uuid now req =
     (let b = body req in
      case read_prop (get b ''location'') ''lat'' of
        Inl e \<Rightarrow> Inl e
      | Inr latitude \<Rightarrow>
          Inr [(''id'', JStr uuid),
               (''updatedAt'', JStr (sqlTimestamp now)),
               (''name'', get b ''name''),
               (''description'', js_or (get b ''description'') Null),
               (''exposure'', get b ''exposure''),
               (''useAuth'', js_or (get b ''useAuth'') (JBool False)),
               (''model'', js_or (get b ''model'') Null),
               (''public'', js_or (get b ''public'') (JBool False)),
               (''status'', js_or (get b ''status'') (JStr ''INACTIVE'')),
               (''latitude'', latitude),
               (''longitude'', field (get b ''location'') ''lng''),
               (''userId'', get (user req) ''id''),
               (''sensors'', get b ''sensors'')])"

text \<open>The optional columns (\<^verbatim>\<open>placeholders\<close>) and the bound \<^verbatim>\<open>values\<close> of the device INSERT.\<close>

definition devicePlaceholders :: "obj \<Rightarrow> string list" where
  "devicePlaceholders nd =
     (if get nd ''description'' \<noteq> Null then [''description''] else []) @
     (if get nd ''model'' \<noteq> Null then [''model''] else [])"

definition deviceValues :: "obj \<Rightarrow> jsval list" where
  "deviceValues nd =
     [get nd ''id'', get nd ''name'', get nd ''exposure'', get nd ''useAuth'', get nd ''public'',
      get nd ''status'', get nd ''latitude'', get nd ''longitude'', get nd ''userId'',
      get nd ''updatedAt''] @
     (if get nd ''description'' \<noteq> Null then [get nd ''description''] else []) @
     (if get nd ''model'' \<noteq> Null then [get nd ''model''] else [])"

text \<open>One turn of the loop over \<^verbatim>\<open>newDevice.sensors\<close>; \<open>newId\<close> is \<^verbatim>\<open>newBox.rows[0].id\<close>.\<close>

definition insertSensor_step :: "exec \<Rightarrow> jsval \<Rightarrow> string \<Rightarrow> jsval \<Rightarrow> unit io" where
  "insertSensor_step exec newId now sensorData d =
     (case read_prop sensorData ''id'' of
        Inl e \<Rightarrow> (Inl e, d)
      | Inr sid \<Rightarrow>
          (case db_query exec InsertBoxSensor
                  [sid, field sensorData ''title'', field sensorData ''unit'',
                   field sensorData ''sensorType'', newId, JStr (sqlTimestamp now)] d of
             (Inl e, d') \<Rightarrow> (Inl e, d')
           | (Inr r, d') \<Rightarrow> (Inr (), d')))"

fun insertSensor_loop :: "exec \<Rightarrow> jsval \<Rightarrow> string \<Rightarrow> jsval list \<Rightarrow> unit io" where
  "insertSensor_loop exec newId now [] d = (Inr (), d)"
| "insertSensor_loop exec newId now (x # xs) d =
     (case insertSensor_step exec newId now x d of
        (Inl e, d') \<Rightarrow> (Inl e, d')
      | (Inr u, d') \<Rightarrow> insertSensor_loop exec newId now xs d')"

text \<open>
  \<^verbatim>\<open>postNewBox\<close>. A run that returns gives the \<^verbatim>\<open>data\<close> of the 201 response,
  \<^verbatim>\<open>newBox.rows[0].id\<close>.
\<close>

definition postNewBox :: "exec \<Rightarrow> string \<Rightarrow> string \<Rightarrow> request \<Rightarrow> jsval io" where
  "postNewBox exec uuid now req =
     try_catch
       (bind_io (db_query exec Begin []) (\<lambda>_.
        bind_io (lift_io (newDevice uuid now req)) (\<lambda>nd.
        bind_io (db_query exec (InsertDevice (devicePlaceholders nd)) (deviceValues nd)) (\<lambda>newBox.
        bind_io (lift_io (read_prop (rows0 newBox) ''id'')) (\<lambda>newId.
        bind_io (lift_io (iterate (get nd ''sensors''))) (\<lambda>sensorList.
        bind_io (insertSensor_loop exec newId now sensorList) (\<lambda>_.
        bind_io (db_query exec Commit []) (\<lambda>_.
        return_io newId))))))))
       (\<lambda>error. bind_io (db_query exec Rollback []) (\<lambda>_. throw error))"

section \<open>A relational store\<close>

text \<open>
  Modelled from the spec: the schema and the SQL engine are not among the sources. The
  spec (DATA MODEL) has two tables, Device and Sensor, each row with a unique
  identifier, and every sensor row owned by a device row that exists. \<open>store_exec\<close>
  runs the controller's statements on such tables, with the meaning SQL gives them:
  \<^item> a row is the list of its columns; \<^verbatim>\<open>undefined\<close> is bound as NULL;
  \<^item> UPDATE and DELETE touch the rows whose \<^verbatim>\<open>id\<close> equals the bound value (no row
    equals NULL), report how many they touched, and succeed when that is none;
  \<^item> the SET text of the device UPDATE is read the way SQL reads it (\<open>parse_set\<close>
    below); the UPDATE is refused when the text does not read as a list of assignments,
    when it assigns a column twice, or when it names a column the Device table does
    not have;
  \<^item> a sensor UPDATE whose SET clause starts with a comma is a syntax error (with no
    field to set the text reads \<^verbatim>\<open>SET , "updatedAt" = $1\<close>);
  \<^item> INSERT appends one row; it fails when the identifier is NULL or is already in
    the table, and a sensor row fails when no device row has its \<^verbatim>\<open>deviceId\<close>.
  Column types are not modelled: a column holds the value that was bound, and the
  device UPDATE stores the text of the literal.
\<close>

subsection \<open>How SQL reads the SET text\<close>

text \<open>
  Modelled from the spec: the reading is the store's. The controller writes each
  assignment as a column name between double quotes, \<^verbatim>\<open>=\<close>, and a text between single
  quotes. SQL reads a quoted name or text up to the next quote of the same kind, two
  such quotes in a row standing for one inside it; between the parts of an assignment
  and after a comma it skips blanks and comments that start with \<^verbatim>\<open>--\<close> and run to the
  end of the line. \<open>parse_set\<close> reads a text that is a list of such assignments and
  gives \<open>None\<close> for any other text; SQL expressions other than a text between single
  quotes are outside this model.
\<close>

definition is_blank :: "char \<Rightarrow> bool" where
  "is_blank c = (c = CHR '' '' \<or> c = CHR 0x09 \<or> c = CHR 0x0A \<or> c = CHR 0x0D)"

definition in_line :: "char \<Rightarrow> bool" where
  "in_line c = (c \<noteq> CHR 0x0A \<and> c \<noteq> CHR 0x0D)"

function skip_blank :: "string \<Rightarrow> string" where
  "skip_blank [] = []"
| "skip_blank (c # cs) =
     (if is_blank c then skip_blank cs
      else if c = CHR ''-'' \<and> take 1 cs = ''-'' then skip_blank (dropWhile in_line cs)
      else c # cs)"
  by pat_completeness auto
termination
  by (relation "measure length") (auto simp: less_Suc_eq_le length_dropWhile_le)

text \<open>The text up to the closing quote \<open>q\<close>, and what follows the closing quote.\<close>

fun read_quoted :: "char \<Rightarrow> string \<Rightarrow> (string \<times> string) option" where
  "read_quoted q [] = None"
| "read_quoted q [c] = (if c = q then Some ([], []) else None)"
| "read_quoted q (c # d # cs) =
     (if c = q then
        (if d = q then map_option (\<lambda>(t, r). (q # t, r)) (read_quoted q cs)
         else Some ([], d # cs))
      else map_option (\<lambda>(t, r). (c # t, r)) (read_quoted q (d # cs)))"

text \<open>One assignment \<^verbatim>\<open>"column" = 'text'\<close>, and what follows it.\<close>

definition parse_assign :: "string \<Rightarrow> ((string \<times> string) \<times> string) option" where
  "parse_assign s =
     (case skip_blank s of
        [] \<Rightarrow> None
      | c # r1 \<Rightarrow>
          if c \<noteq> CHR 0x22 then None
          else
            (case read_quoted (CHR 0x22) r1 of
               None \<Rightarrow> None
             | Some (col, r2) \<Rightarrow>
                 if col = [] then None
                 else
                   (case skip_blank r2 of
                      [] \<Rightarrow> None
                    | e # r3 \<Rightarrow>
                        if e \<noteq> CHR ''='' then None
                        else
                          (case skip_blank r3 of
                             [] \<Rightarrow> None
                           | q # r4 \<Rightarrow>
                               if q \<noteq> CHR 0x27 then None
                               else
                                 (case read_quoted (CHR 0x27) r4 of
                                    None \<Rightarrow> None
                                  | Some (lit, r5) \<Rightarrow> Some ((col, lit), r5))))))"

text \<open>
  Assignments separated by commas, to the end of the text. Each turn reads at least
  one character, so \<open>n\<close> turns suffice for a text of \<open>n\<close> characters.
\<close>

fun parse_assigns :: "nat \<Rightarrow> string \<Rightarrow> (string \<times> string) list option" where
  "parse_assigns 0 s = None"
| "parse_assigns (Suc n) s =
     (case parse_assign s of
        None \<Rightarrow> None
      | Some (a, r) \<Rightarrow>
          (case skip_blank r of
             [] \<Rightarrow> Some [a]
           | c # r' \<Rightarrow>
               if c = CHR '','' then map_option ((#) a) (parse_assigns n r') else None))"

definition parse_set :: "string \<Rightarrow> (string \<times> string) list option" where
  "parse_set s = parse_assigns (length s) s"

subsection \<open>The statements on the tables\<close>

definition bindv :: "jsval \<Rightarrow> jsval" where
  "bindv v = (if v = Undefined then Null else v)"

text \<open>The value bound to \<^verbatim>\<open>$n\<close>.\<close>

definition placeholder :: "jsval list \<Rightarrow> nat \<Rightarrow> jsval" where
  "placeholder vals n = (if 0 < n \<and> n \<le> length vals then bindv (vals ! (n - 1)) else Null)"

definition ids :: "row list \<Rightarrow> jsval list" where
  "ids tbl = map (\<lambda>r. get r ''id'') tbl"

fun set_col :: "string \<Rightarrow> jsval \<Rightarrow> row \<Rightarrow> row" where
  "set_col c v [] = [(c, v)]"
| "set_col c v ((k, x) # r) = (if k = c then (k, v) # r else (k, x) # set_col c v r)"

definition set_cols :: "row \<Rightarrow> (string \<times> jsval) list \<Rightarrow> row" where
  "set_cols r assigns = foldl (\<lambda>r' (c, v). set_col c v r') r assigns"

definition matches :: "jsval \<Rightarrow> row \<Rightarrow> bool" where
  "matches key r = (key \<noteq> Null \<and> get r ''id'' = key)"

definition sensorColumns :: "string list" where
  "sensorColumns =
     [''id'', ''title'', ''unit'', ''sensorType'', ''status'', ''icon'', ''updatedAt'', ''deviceId'']"

definition boxSensorColumns :: "string list" where
  "boxSensorColumns = [''id'', ''title'', ''unit'', ''sensorType'', ''deviceId'', ''updatedAt'']"

definition deviceColumns :: "string list" where
  "deviceColumns =
     [''id'', ''name'', ''exposure'', ''useAuth'', ''public'', ''status'', ''latitude'',
      ''longitude'', ''userId'', ''updatedAt'']"

text \<open>The columns of the Device table: the ten above and the two optional ones.\<close>

definition allDeviceColumns :: "string list" where
  "allDeviceColumns = deviceColumns @ [''description'', ''model'']"

text \<open>A row after the assignments of a device UPDATE.\<close>

definition assigned :: "(string \<times> string) list \<Rightarrow> row \<Rightarrow> row" where
  "assigned asg r = set_cols r (map (\<lambda>(c, t). (c, JStr t)) asg)"

definition insert_sensor :: "string list \<Rightarrow> jsval list \<Rightarrow> store \<Rightarrow> error + (qresult \<times> store)" where
  "insert_sensor cols vals s =
     (if length vals \<noteq> length cols then Inl (StoreError ''wrong number of parameters'')
      else
        let r = zip cols (map bindv vals) in
        if get r ''id'' = Null then Inl (StoreError ''null value in column id'')
        else if get r ''id'' \<in> set (ids (sensors s)) then Inl (StoreError ''duplicate key'')
        else if get r ''deviceId'' \<notin> set (ids (devices s)) then
          Inl (StoreError ''foreign key violation'')
        else Inr (\<lparr>rows = [], rowCount = 1\<rparr>, s\<lparr>sensors := sensors s @ [r]\<rparr>))"

fun store_exec :: exec where
  "store_exec (UpdateDevice sql) vals s =
     (case parse_set sql of
        None \<Rightarrow> Inl (StoreError ''syntax error'')
      | Some asg \<Rightarrow>
          if \<not> distinct (map fst asg) then
            Inl (StoreError ''multiple assignments to same column'')
          else if \<not> list_all (\<lambda>c. c \<in> set allDeviceColumns) (map fst asg) then
            Inl (StoreError ''column does not exist'')
          else
            let key = placeholder vals 1;
                hit = filter (matches key) (devices s)
            in Inr (\<lparr>rows = map (assigned asg) hit, rowCount = length hit\<rparr>,
                    s\<lparr>devices := map (\<lambda>r. if matches key r then assigned asg r else r)
                                     (devices s)\<rparr>))"
| "store_exec DeleteSensor vals s =
     (let key = placeholder vals 1 in
      Inr (\<lparr>rows = [], rowCount = length (filter (matches key) (sensors s))\<rparr>,
           s\<lparr>sensors := filter (\<lambda>r. \<not> matches key r) (sensors s)\<rparr>))"
| "store_exec InsertSensor vals s = insert_sensor sensorColumns vals s"
| "store_exec InsertBoxSensor vals s = insert_sensor boxSensorColumns vals s"
| "store_exec (UpdateSensor updateFields u i) vals s =
     (if updateFields = [] then Inl (StoreError ''syntax error'')
      else
        let key = placeholder vals i;
            upd = (\<lambda>r. set_cols r
                     (map (\<lambda>(c, n). (c, placeholder vals n)) updateFields @
                      [(''updatedAt'', placeholder vals u)]))
        in Inr (\<lparr>rows = [], rowCount = length (filter (matches key) (sensors s))\<rparr>,
                s\<lparr>sensors := map (\<lambda>r. if matches key r then upd r else r) (sensors s)\<rparr>))"
| "store_exec (InsertDevice extra) vals s =
     (if length vals \<noteq> length (deviceColumns @ extra) then
        Inl (StoreError ''wrong number of parameters'')
      else
        let r = zip (deviceColumns @ extra) (map bindv vals) in
        if get r ''id'' = Null then Inl (StoreError ''null value in column id'')
        else if get r ''id'' \<in> set (ids (devices s)) then Inl (StoreError ''duplicate key'')
        else Inr (\<lparr>rows = [[(''id'', get r ''id'')]], rowCount = 1\<rparr>,
                  s\<lparr>devices := devices s @ [r]\<rparr>))"
| "store_exec q vals s = Inr (no_rows, s)"

section \<open>States of a transaction\<close>

text \<open>The connection right after \<^verbatim>\<open>BEGIN\<close> on a connection with no open transaction.\<close>

definition began :: "store \<Rightarrow> db" where
  "began s = \<lparr>store = s, saved = Some s, issued = [(Begin, [])]\<rparr>"

text \<open>The connection after \<^verbatim>\<open>ROLLBACK\<close>.\<close>

definition rolled_back :: "db \<Rightarrow> db" where
  "rolled_back d =
     d\<lparr>store := (case saved d of None \<Rightarrow> store d | Some s \<Rightarrow> s), saved := None,
       issued := issued d @ [(Rollback, [])]\<rparr>"

text \<open>The statements that read or write rows, as opposed to the three that frame a transaction.\<close>

definition data_statement :: "statement \<Rightarrow> bool" where
  "data_statement q = (q \<noteq> Begin \<and> q \<noteq> Commit \<and> q \<noteq> Rollback)"

section \<open>Values that splice into the SET text without harm\<close>

text \<open>
  The controller puts the text of a value between single quotes as it is. A value
  whose text holds a single quote ends the quoted text early, and what follows it is
  read as SQL. \<open>quote_free\<close> says that a value prints and that its text has no single
  quote, \<open>clean\<close> that every truthy property of an object is so: then the SET text
  reads back as one assignment per truthy property, \<open>spliced\<close>.
\<close>

definition quote_free :: "jsval \<Rightarrow> bool" where
  "quote_free v = (case js_toString v of Inl e \<Rightarrow> False | Inr t \<Rightarrow> CHR 0x27 \<notin> set t)"

definition clean :: "obj \<Rightarrow> bool" where
  "clean ud = list_all (\<lambda>(k, v). truthy v \<longrightarrow> quote_free v) ud"

definition spliced :: "obj \<Rightarrow> (string \<times> string) list" where
  "spliced ud =
     map (\<lambda>(k, v). (k, case js_toString v of Inl e \<Rightarrow> [] | Inr t \<Rightarrow> t))
       (filter (\<lambda>(k, v). truthy v) ud)"

text \<open>Assignments whose column names have no double quote and whose texts have no single quote.\<close>

definition plain :: "(string \<times> string) list \<Rightarrow> bool" where
  "plain asg = list_all (\<lambda>(k, t). k \<noteq> [] \<and> CHR 0x22 \<notin> set k \<and> CHR 0x27 \<notin> set t) asg"

section \<open>Example data\<close>

text \<open>One device with one sensor, and a clock reading.\<close>

definition example_store :: store where
  "example_store =
     \<lparr>devices = [[(''id'', JStr ''box-1''), (''name'', JStr ''Old Name''), (''useAuth'', JBool False)]],
      sensors = [[(''id'', JStr ''s1''), (''title'', JStr ''Temperature''), (''unit'', JStr ''C''),
                  (''deviceId'', JStr ''box-1'')]]\<rparr>"

definition example_now :: string where
  "example_now = ''2024-05-01T10:20:30.000Z''"

text \<open>
  A batch of three descriptors for \<^verbatim>\<open>box-1\<close>: rename sensor \<^verbatim>\<open>s1\<close>, create a sensor
  whose identifier \<^verbatim>\<open>s1\<close> is taken, delete sensor \<^verbatim>\<open>s1\<close>.
\<close>

definition rename_s1 :: jsval where
  "rename_s1 = JObj [(''_id'', JStr ''s1''), (''edited'', JBool True), (''title'', JStr ''A'')]"

definition create_s1 :: jsval where
  "create_s1 =
     JObj [(''_id'', JStr ''s1''), (''title'', JStr ''X''), (''unit'', JStr ''C''),
           (''sensorType'', JStr ''TempSensor''), (''edited'', JBool True), (''new'', JBool True)]"

definition delete_s1 :: jsval where
  "delete_s1 = JObj [(''_id'', JStr ''s1''), (''deleted'', JBool True)]"

definition failing_batch_request :: request where
  "failing_batch_request =
     \<lparr>boxId = JStr ''box-1'',
      body = [(''name'', JStr ''New Name''), (''sensors'', JArr [rename_s1, create_s1, delete_s1])],
      user = []\<rparr>"



definition device_only_request :: request where
  "device_only_request = \<lparr>boxId = JStr ''box-1'', body = [(''name'', JStr ''New Name'')], user = []\<rparr>"






definition empty_request :: request where
  "empty_request = \<lparr>boxId = JStr ''box-1'', body = [(''sensors'', JArr [])], user = []\<rparr>"

text \<open>
  Two requests for a new device: one with two sensor definitions, one whose two
  sensor definitions have the same identifier.
\<close>

definition sensor_a :: jsval where
  "sensor_a =
     JObj [(''id'', JStr ''a''), (''title'', JStr ''Temperature''), (''unit'', JStr ''C''),
           (''sensorType'', JStr ''HDC1080'')]"

definition sensor_b :: jsval where
  "sensor_b =
     JObj [(''id'', JStr ''b''), (''title'', JStr ''Humidity''), (''unit'', JStr ''%''),
           (''sensorType'', JStr ''HDC1080'')]"

definition new_box_request :: request where
  "new_box_request =
     \<lparr>boxId = Undefined,
      body = [(''name'', JStr ''Roof''), (''exposure'', JStr ''outdoor''),
              (''location'', JObj [(''lat'', JNum ''51.96''), (''lng'', JNum ''7.62'')]),
              (''sensors'', JArr [sensor_a, sensor_b])],
      user = [(''id'', JStr ''user-1'')]\<rparr>"

definition clashing_box_request :: request where
  "clashing_box_request =
     \<lparr>boxId = Undefined,
      body = [(''name'', JStr ''Roof''), (''exposure'', JStr ''outdoor''),
              (''location'', JObj [(''lat'', JNum ''51.96''), (''lng'', JNum ''7.62'')]),
              (''sensors'', JArr [sensor_a, sensor_a])],
      user = [(''id'', JStr ''user-1'')]\<rparr>"


definition quoted_name_request :: request where
  "quoted_name_request =
     \<lparr>boxId = JStr ''box-1'',
      body = [(''name'',
               JStr (''x'' @ [CHR 0x27] @ '', '' @ [CHR 0x22] @ ''description'' @ [CHR 0x22] @
                     '' = '' @ [CHR 0x27] @ ''y'')),
              (''sensors'', JArr [])],
      user = []\<rparr>"



text \<open>
  A rename of \<^verbatim>\<open>box-1\<close> with an empty batch, and one whose new name is an object with
  a key \<^verbatim>\<open>toString\<close>.
\<close>

definition rename_box_request :: request where
  "rename_box_request =
     \<lparr>boxId = JStr ''box-1'', body = [(''name'', JStr ''New Name''), (''sensors'', JArr [])],
      user = []\<rparr>"


section \<open>Reading back the SET text\<close>

lemma skip_blank_length: "length (skip_blank s) \<le> length s"
proof (induction s rule: skip_blank.induct)
  case 1
  show ?case by simp
next
  case (2 c cs)
  have "length (dropWhile in_line cs) \<le> length cs" by (rule length_dropWhile_le)
  with 2 show ?case by (auto simp: le_Suc_eq)
qed

lemma read_quoted_length: "read_quoted q s = Some (t, r) \<Longrightarrow> length r < length s"
proof (induction q s arbitrary: t r rule: read_quoted.induct)
  case (1 q)
  then show ?case by simp
next
  case (2 q c)
  then show ?case by (simp split: if_splits)
next
  case (3 q c d cs)
  show ?case
  proof (cases "c = q")
    case True
    show ?thesis
    proof (cases "d = q")
      case d: True
      with True "3.prems" obtain t' where "read_quoted q cs = Some (t', r)" by auto
      from "3.IH"(1) [OF True d this] show ?thesis by simp
    next
      case False
      with True "3.prems" show ?thesis by simp
    qed
  next
    case False
    with "3.prems" obtain t' where "read_quoted q (d # cs) = Some (t', r)" by auto
    from "3.IH"(2) [OF False this] show ?thesis by simp
  qed
qed

lemma parse_assign_length:
  assumes "parse_assign s = Some (a, r)"
  shows "length r < length s"
proof -
  from assms obtain r1 col r2 e r3 q r4 lit where
    s1: "skip_blank s = CHR 0x22 # r1" and
    q1: "read_quoted (CHR 0x22) r1 = Some (col, r2)" and
    s2: "skip_blank r2 = e # r3" and
    s3: "skip_blank r3 = q # r4" and
    q2: "read_quoted (CHR 0x27) r4 = Some (lit, r)"
    by (auto simp: parse_assign_def split: list.splits if_splits option.splits)
  from skip_blank_length [of s] s1 have "length r1 < length s" by simp
  moreover from read_quoted_length [OF q1] have "length r2 < length r1" .
  moreover from skip_blank_length [of r2] s2 have "length r3 < length r2" by simp
  moreover from skip_blank_length [of r3] s3 have "length r4 < length r3" by simp
  moreover from read_quoted_length [OF q2] have "length r < length r4" .
  ultimately show ?thesis by simp
qed

text \<open>The reading never stops for want of turns: more turns than characters change nothing.\<close>

lemma parse_assigns_turns:
  "length s \<le> n \<Longrightarrow> length s \<le> m \<Longrightarrow> parse_assigns n s = parse_assigns m s"
proof (induction n arbitrary: m s)
  case 0
  then have "s = []" by simp
  then show ?case by (cases m) (simp_all add: parse_assign_def)
next
  case (Suc n)
  show ?case
  proof (cases m)
    case 0
    with Suc.prems have "s = []" by simp
    with 0 show ?thesis by (simp add: parse_assign_def)
  next
    case m: (Suc m')
    show ?thesis
    proof (cases "parse_assign s")
      case None
      with m show ?thesis by simp
    next
      case (Some ar)
      obtain a r where ar: "ar = (a, r)" by (cases ar)
      from parse_assign_length [of s a r] Some ar have lr: "length r < length s" by simp
      show ?thesis
      proof (cases "skip_blank r")
        case Nil
        with Some ar m show ?thesis by simp
      next
        case (Cons c r')
        from skip_blank_length [of r] Cons lr have "length r' < length s" by simp
        with Suc.prems m have "length r' \<le> n" "length r' \<le> m'" by simp_all
        from Suc.IH [OF this] Some ar m Cons show ?thesis by simp
      qed
    qed
  qed
qed

lemma read_quoted_plain:
  "q \<notin> set t \<Longrightarrow> r = [] \<or> hd r \<noteq> q \<Longrightarrow> read_quoted q (t @ q # r) = Some (t, r)"
proof (induction t)
  case Nil
  then show ?case by (cases r) auto
next
  case (Cons c t)
  then have IH: "read_quoted q (t @ q # r) = Some (t, r)" by simp
  from Cons.prems have "c \<noteq> q" by auto
  then show ?case using IH by (cases t) (simp_all)
qed

lemma parse_assign_fragment:
  assumes "CHR 0x22 \<notin> set k" "k \<noteq> []" "CHR 0x27 \<notin> set t" "r = [] \<or> hd r = CHR '',''"
  shows "parse_assign (fragment k t @ r) = Some ((k, t), r)"
proof -
  have f: "fragment k t @ r = CHR 0x22 # (k @ CHR 0x22 # ('' = '' @ CHR 0x27 # (t @ CHR 0x27 # r)))"
    by (simp add: fragment_def)
  have q1: "read_quoted (CHR 0x22) (k @ CHR 0x22 # ('' = '' @ CHR 0x27 # (t @ CHR 0x27 # r))) =
              Some (k, '' = '' @ CHR 0x27 # (t @ CHR 0x27 # r))"
    using assms(1) by (intro read_quoted_plain) simp_all
  have q2: "read_quoted (CHR 0x27) (t @ CHR 0x27 # r) = Some (t, r)"
    using assms(3,4) by (intro read_quoted_plain) auto
  show ?thesis
    unfolding f parse_assign_def
    using q1 q2 assms(2) by (simp add: is_blank_def)
qed

lemma setText_Cons:
  "setText ((k, t) # asg) = fragment k t @ (if asg = [] then [] else CHR '','' # setText asg)"
  by (cases asg) (auto simp: setText_def)

lemma parse_assigns_setText:
  "asg \<noteq> [] \<Longrightarrow> plain asg \<Longrightarrow> length asg \<le> n \<Longrightarrow> parse_assigns n (setText asg) = Some asg"
proof (induction asg arbitrary: n)
  case Nil
  then show ?case by simp
next
  case (Cons a asg)
  obtain k t where a: "a = (k, t)" by (cases a)
  from Cons.prems a have k: "k \<noteq> []" "CHR 0x22 \<notin> set k" "CHR 0x27 \<notin> set t" and rest: "plain asg"
    by (simp_all add: plain_def)
  from Cons.prems obtain n' where n: "n = Suc n'" and n': "length asg \<le> n'" by (cases n) auto
  show ?case
  proof (cases "asg = []")
    case True
    with parse_assign_fragment [OF k(2) k(1) k(3), of "[]"] a n show ?thesis
      by (simp add: setText_Cons)
  next
    case False
    have p: "parse_assign (fragment k t @ CHR '','' # setText asg) = Some ((k, t), CHR '','' # setText asg)"
      using parse_assign_fragment [OF k(2) k(1) k(3), of "CHR '','' # setText asg"] by simp
    from Cons.IH [OF False rest n'] have "parse_assigns n' (setText asg) = Some asg" .
    with p False a n show ?thesis
      by (simp add: setText_Cons is_blank_def)
  qed
qed

lemma fragment_length: "Suc 0 \<le> length (fragment k t)"
  by (simp add: fragment_def)

lemma setText_length: "length asg \<le> length (setText asg)"
proof (induction asg)
  case Nil
  show ?case by simp
next
  case (Cons a asg)
  obtain k t where a: "a = (k, t)" by (cases a)
  from Cons fragment_length [of k t] show ?case
    by (simp add: a setText_Cons)
qed

lemma parse_set_setText: "asg \<noteq> [] \<Longrightarrow> plain asg \<Longrightarrow> parse_set (setText asg) = Some asg"
  unfolding parse_set_def by (rule parse_assigns_setText [OF _ _ setText_length])


lemma spliced_member:
  "(k, t) \<in> set (spliced ud) \<longleftrightarrow>
     (\<exists>v. (k, v) \<in> set ud \<and> truthy v \<and> t = (case js_toString v of Inl e \<Rightarrow> [] | Inr t' \<Rightarrow> t'))"
  by (auto simp: spliced_def)

lemma spliced_columns: "k \<in> fst ` set (spliced ud) \<longleftrightarrow> (\<exists>v. (k, v) \<in> set ud \<and> truthy v)"
  by (force simp: spliced_def)

lemma spliced_distinct: "distinct (map fst ud) \<Longrightarrow> distinct (map fst (spliced ud))"
proof -
  have "map fst (spliced ud) = map fst (filter (\<lambda>(k, v). truthy v) ud)"
    by (simp add: spliced_def comp_def case_prod_unfold)
  moreover assume "distinct (map fst ud)"
  ultimately show ?thesis by (simp add: distinct_map_filter)
qed

lemma setStatement_loop_spliced:
  "clean ud \<Longrightarrow>
   setStatement_loop ud acc =
     Inr (acc @ concat (map (\<lambda>(k, t). fragment k t @ '','') (spliced ud)))"
proof (induction ud arbitrary: acc)
  case Nil
  show ?case by (simp add: spliced_def)
next
  case (Cons kv ud)
  obtain k v where kv: "kv = (k, v)" by (cases kv)
  from Cons.prems have rest: "clean ud" by (simp add: clean_def)
  show ?case
  proof (cases "truthy v")
    case False
    with Cons.IH [OF rest] kv show ?thesis by (simp add: spliced_def)
  next
    case True
    with Cons.prems kv obtain t where t: "js_toString v = Inr t"
      by (cases "js_toString v") (auto simp: clean_def quote_free_def)
    from Cons.IH [OF rest, of "acc @ fragment k t @ '',''"] kv True t show ?thesis
      by (simp add: spliced_def)
  qed
qed

lemma concat_commas:
  "fs \<noteq> [] \<Longrightarrow> concat (map (\<lambda>f. f @ '','') fs) = join_comma fs @ '',''"
  by (induction fs rule: join_comma.induct) simp_all

text \<open>For a clean object, the text the loop builds is the assignments \<open>spliced\<close>, joined by commas.\<close>

lemma setStatement_spliced:
  assumes "clean ud"
  shows "setStatement ud = Inr (setText (spliced ud))"
proof (cases "spliced ud = []")
  case True
  then show ?thesis
    by (simp add: setStatement_def setStatement_loop_spliced [OF assms] setText_def)
next
  case False
  then have ne: "map (\<lambda>(k, t). fragment k t) (spliced ud) \<noteq> []" by simp
  have "concat (map (\<lambda>(k, t). fragment k t @ '','') (spliced ud)) =
        concat (map (\<lambda>f. f @ '','') (map (\<lambda>(k, t). fragment k t) (spliced ud)))"
    by (simp add: comp_def case_prod_unfold)
  also have "\<dots> = join_comma (map (\<lambda>(k, t). fragment k t) (spliced ud)) @ '',''"
    by (rule concat_commas [OF ne])
  finally show ?thesis
    by (simp add: setStatement_def setStatement_loop_spliced [OF assms] setText_def)
qed

lemma spliced_plain:
  assumes "clean ud" and "list_all (\<lambda>(k, v). k \<noteq> [] \<and> CHR 0x22 \<notin> set k) ud"
  shows "plain (spliced ud)"
  using assms
  by (induction ud)
     (auto simp: clean_def plain_def spliced_def quote_free_def split: sum.splits)

text \<open>The object \<^verbatim>\<open>updatedDevice\<close>: its keys, and the three properties it always has.\<close>

lemma updatedDevice_keys:
  "map fst (updatedDevice b now) =
     [''name'', ''updatedAt'', ''description'', ''exposure'', ''useAuth'', ''model'', ''public'',
      ''status'', ''latitude'', ''longitude'', ''userId'']"
  by (simp add: updatedDevice_def)

lemma updatedDevice_names:
  "list_all (\<lambda>(k, v). k \<noteq> [] \<and> CHR 0x22 \<notin> set k) (updatedDevice b now)"
  by (simp add: updatedDevice_def)

lemma updatedDevice_distinct: "distinct (map fst (updatedDevice b now))"
  by (simp add: updatedDevice_keys)

lemma updatedDevice_spliced_ne: "spliced (updatedDevice b now) \<noteq> []"
proof -
  have "(''useAuth'', JBool True) \<in> set (updatedDevice b now)" by (simp add: updatedDevice_def)
  then have "(''useAuth'', ''true'') \<in> set (spliced (updatedDevice b now))"
    unfolding spliced_member by force
  then show ?thesis by auto
qed

lemma updatedDevice_known:
  "list_all (\<lambda>c. c \<in> set allDeviceColumns) (map fst (spliced (updatedDevice b now)))"
proof -
  have "set (map fst (spliced (updatedDevice b now))) \<subseteq> set (map fst (updatedDevice b now))"
    by (force simp: spliced_def)
  also have "\<dots> \<subseteq> set allDeviceColumns"
    unfolding updatedDevice_keys by (simp add: allDeviceColumns_def deviceColumns_def)
  finally show ?thesis by (auto simp: list_all_iff)
qed

text \<open>
  What a clean request sends as its SET text, and how the store reads it: one assignment
  for each truthy property of \<^verbatim>\<open>updatedDevice\<close>, no column twice, every column known.
\<close>

lemma updatedDevice_text:
  assumes "clean (updatedDevice b now)"
  shows "setStatement (updatedDevice b now) = Inr (setText (spliced (updatedDevice b now)))"
    and "parse_set (setText (spliced (updatedDevice b now))) = Some (spliced (updatedDevice b now))"
proof -
  show "setStatement (updatedDevice b now) = Inr (setText (spliced (updatedDevice b now)))"
    by (rule setStatement_spliced [OF assms])
  show "parse_set (setText (spliced (updatedDevice b now))) = Some (spliced (updatedDevice b now))"
    by (rule parse_set_setText [OF updatedDevice_spliced_ne spliced_plain [OF assms updatedDevice_names]])
qed

section \<open>Rows after a device UPDATE\<close>

lemma get_set_col: "get (set_col c v r) c' = (if c' = c then v else get r c')"
  by (induction r) (auto simp: get_def)

lemma get_set_cols_other: "c \<notin> fst ` set asg \<Longrightarrow> get (set_cols r asg) c = get r c"
proof (induction asg arbitrary: r)
  case Nil
  show ?case by (simp add: set_cols_def)
next
  case (Cons a asg)
  obtain k v where a: "a = (k, v)" by (cases a)
  from Cons.prems a have "c \<noteq> k" "c \<notin> fst ` set asg" by auto
  with Cons.IH [of "set_col k v r"] a show ?case
    by (simp add: set_cols_def get_set_col)
qed

lemma get_set_cols_member:
  "distinct (map fst asg) \<Longrightarrow> (c, v) \<in> set asg \<Longrightarrow> get (set_cols r asg) c = v"
proof (induction asg arbitrary: r)
  case Nil
  then show ?case by simp
next
  case (Cons a asg)
  obtain k w where a: "a = (k, w)" by (cases a)
  show ?case
  proof (cases "(c, v) = a")
    case True
    with Cons.prems a have "c \<notin> fst ` set asg" by auto
    from get_set_cols_other [OF this, of "set_col k w r"] True a show ?thesis
      by (simp add: set_cols_def get_set_col)
  next
    case False
    with Cons.prems have "(c, v) \<in> set asg" "distinct (map fst asg)" by auto
    from Cons.IH [OF this(2) this(1), of "set_col k w r"] a show ?thesis
      by (simp add: set_cols_def)
  qed
qed

lemma get_assigned_member:
  assumes "distinct (map fst asg)" "(c, t) \<in> set asg"
  shows "get (assigned asg r) c = JStr t"
proof -
  have d: "distinct (map fst (map (\<lambda>(c, t). (c, JStr t)) asg))"
    using assms(1) by (simp add: comp_def case_prod_unfold)
  have m: "(c, JStr t) \<in> set (map (\<lambda>(c, t). (c, JStr t)) asg)"
    using assms(2) by force
  show ?thesis unfolding assigned_def by (rule get_set_cols_member [OF d m])
qed

lemma get_assigned_other:
  assumes "c \<notin> fst ` set asg"
  shows "get (assigned asg r) c = get r c"
proof -
  have "c \<notin> fst ` set (map (\<lambda>(c, t). (c, JStr t)) asg)"
    using assms by force
  then show ?thesis unfolding assigned_def by (rule get_set_cols_other)
qed

text \<open>The device UPDATE of a clean request, on the relational store: it is never refused.\<close>

lemma store_exec_clean_update:
  assumes "clean (updatedDevice b now)"
  shows "store_exec (UpdateDevice (setText (spliced (updatedDevice b now)))) [bid] s =
           Inr (\<lparr>rows = map (assigned (spliced (updatedDevice b now)))
                          (filter (matches (bindv bid)) (devices s)),
                  rowCount = length (filter (matches (bindv bid)) (devices s))\<rparr>,
                s\<lparr>devices := map (\<lambda>r. if matches (bindv bid) r
                                        then assigned (spliced (updatedDevice b now)) r else r)
                                  (devices s)\<rparr>)"
  using updatedDevice_text(2) [OF assms] updatedDevice_known [of b now]
    spliced_distinct [OF updatedDevice_distinct, of b now]
  by (simp add: placeholder_def Let_def)

section \<open>The transaction frame of \<^verbatim>\<open>updateBox\<close>\<close>

lemma db_query_issued: "issued (snd (db_query exec q vals d)) = issued d @ [(q, vals)]"
  by (cases q) (auto split: sum.splits prod.splits)

lemma db_query_data:
  "data_statement q \<Longrightarrow>
   db_query exec q vals d =
     (case exec q vals (store d) of
        Inl e \<Rightarrow> (Inl e, d\<lparr>issued := issued d @ [(q, vals)]\<rparr>)
      | Inr (r, s') \<Rightarrow> (Inr r, d\<lparr>store := s', issued := issued d @ [(q, vals)]\<rparr>))"
  by (cases q) (auto simp: data_statement_def)

lemma db_query_saved: "data_statement q \<Longrightarrow> saved (snd (db_query exec q vals d)) = saved d"
  by (simp add: db_query_data split: sum.splits prod.splits)

lemma sensorQuery_data: "sensorQuery bid now x = Inr (q, vals) \<Longrightarrow> data_statement q"
  by (auto simp: sensorQuery_def data_statement_def Let_def split: if_splits prod.splits sum.splits)

lemma updateSensor_step_saved: "saved (snd (updateSensor_step exec bid now x d)) = saved d"
proof (cases "sensorQuery bid now x")
  case (Inl e)
  then show ?thesis by (simp add: updateSensor_step_def)
next
  case (Inr qv)
  obtain q vals where qv: "qv = (q, vals)" by (cases qv)
  from Inr qv have "data_statement q" by (simp add: sensorQuery_data)
  from db_query_saved [OF this, of exec vals d] Inr qv show ?thesis
    by (cases "db_query exec q vals d") (auto simp: updateSensor_step_def split: sum.splits)
qed

lemma updateSensor_loop_saved: "saved (snd (updateSensor_loop exec bid now xs d)) = saved d"
proof (induction xs arbitrary: d)
  case Nil
  show ?case by simp
next
  case (Cons x xs)
  show ?case
  proof (cases "updateSensor_step exec bid now x d")
    case (Pair r d')
    with updateSensor_step_saved [of exec bid now x d] have s: "saved d' = saved d" by simp
    show ?thesis
    proof (cases r)
      case (Inl e)
      with Pair s show ?thesis by simp
    next
      case (Inr u)
      with Pair s Cons.IH [of d'] show ?thesis by simp
    qed
  qed
qed


lemma begin_fresh: "db_query exec Begin [] (fresh s) = (Inr no_rows, began s)"
  by (simp add: fresh_def began_def)

lemma rolled_back_saved:
  "saved d = Some s \<Longrightarrow>
   rolled_back d = \<lparr>store = s, saved = None, issued = issued d @ [(Rollback, [])]\<rparr>"
  by (simp add: rolled_back_def)

text \<open>A request whose SET text cannot be built throws before anything is sent.\<close>

lemma updateBox_unbuilt:
  "setStatement (updatedDevice (body req) now) = Inl e \<Longrightarrow> updateBox exec now req d = (Inl e, d)"
  by (simp add: updateBox_def Let_def throw_def)

text \<open>
  \<^verbatim>\<open>updateBox\<close> on a connection with no open transaction, with the \<^verbatim>\<open>try\<close>/\<^verbatim>\<open>catch\<close>
  written out: a failure of the device UPDATE or of the sensor batch is followed by
  ROLLBACK, a success of both by COMMIT.
\<close>

lemma updateBox_unfold:
  assumes built: "setStatement (updatedDevice (body req) now) = Inr sql"
  shows "updateBox exec now req (fresh s) =
     (case db_query exec (UpdateDevice sql) [boxId req] (began s) of
        (Inl e, d1) \<Rightarrow> (Inl e, rolled_back d1)
      | (Inr result, d1) \<Rightarrow>
          (case updateSensor exec (get (body req) ''sensors'') (boxId req) now d1 of
             (Inl e, d2) \<Rightarrow> (Inl e, rolled_back d2)
           | (Inr u, d2) \<Rightarrow>
               (Inr (JObj [(''code'', JStr ''Ok''), (''data'', JObj (updatedDevice (body req) now))],
                     rows0 result),
                d2\<lparr>saved := None, issued := issued d2 @ [(Commit, [])]\<rparr>)))"
proof -
  let ?upd = "UpdateDevice sql"
  obtain r1 d1 where q: "db_query exec ?upd [boxId req] (began s) = (r1, d1)"
    by (cases "db_query exec ?upd [boxId req] (began s)")
  obtain r2 d2 where u: "updateSensor exec (get (body req) ''sensors'') (boxId req) now d1 = (r2, d2)"
    by (cases "updateSensor exec (get (body req) ''sensors'') (boxId req) now d1")
  have "updateBox exec now req (fresh s) =
          try_catch
            (bind_io (db_query exec Begin []) (\<lambda>_.
             bind_io (db_query exec ?upd [boxId req]) (\<lambda>result.
             bind_io (updateSensor exec (get (body req) ''sensors'') (boxId req) now) (\<lambda>_.
             bind_io (db_query exec Commit []) (\<lambda>_.
             return_io (JObj [(''code'', JStr ''Ok''), (''data'', JObj (updatedDevice (body req) now))],
                        rows0 result))))))
            (\<lambda>err. bind_io (db_query exec Rollback []) (\<lambda>_. throw err)) (fresh s)"
    by (simp only: updateBox_def Let_def built sum.case)
  also have "\<dots> = (case r1 of
        Inl e \<Rightarrow> (Inl e, rolled_back d1)
      | Inr result \<Rightarrow>
          (case r2 of
             Inl e \<Rightarrow> (Inl e, rolled_back d2)
           | Inr u \<Rightarrow>
               (Inr (JObj [(''code'', JStr ''Ok''), (''data'', JObj (updatedDevice (body req) now))],
                     rows0 result),
                d2\<lparr>saved := None, issued := issued d2 @ [(Commit, [])]\<rparr>)))"
    unfolding try_catch_def bind_io_def begin_fresh prod.case sum.case q
    by (cases r1; cases r2) (simp_all add: u return_io_def throw_def rolled_back_def)
  finally show ?thesis
    unfolding q prod.case u by (cases r1; cases r2) simp_all
qed

section \<open>The sensor batch, one descriptor after the other\<close>

lemma updateSensor_loop_append:
  "updateSensor_loop exec bid now (xs @ ys) d =
     (case updateSensor_loop exec bid now xs d of
        (Inl e, d') \<Rightarrow> (Inl e, d')
      | (Inr u, d') \<Rightarrow> updateSensor_loop exec bid now ys d')"
  by (induction xs arbitrary: d) (auto split: prod.splits sum.splits)

lemma updateSensor_step_issued:
  "length (issued (snd (updateSensor_step exec bid now x d))) \<le> Suc (length (issued d))"
proof (cases "sensorQuery bid now x")
  case (Inl e)
  then show ?thesis by (simp add: updateSensor_step_def)
next
  case (Inr qv)
  obtain q vals where qv: "qv = (q, vals)" by (cases qv)
  from db_query_issued [of exec q vals d] Inr qv show ?thesis
    by (cases "db_query exec q vals d") (auto simp: updateSensor_step_def split: sum.splits)
qed

lemma updateSensor_step_ok_issued:
  assumes "fst (updateSensor_step exec bid now x d) = Inr u"
  shows "length (issued (snd (updateSensor_step exec bid now x d))) = Suc (length (issued d))"
proof (cases "sensorQuery bid now x")
  case (Inl e)
  with assms show ?thesis by (simp add: updateSensor_step_def)
next
  case (Inr qv)
  obtain q vals where qv: "qv = (q, vals)" by (cases qv)
  from db_query_issued [of exec q vals d] Inr qv show ?thesis
    by (cases "db_query exec q vals d") (auto simp: updateSensor_step_def split: sum.splits)
qed

lemma updateSensor_loop_ok_issued:
  "fst (updateSensor_loop exec bid now xs d) = Inr u \<Longrightarrow>
   length (issued (snd (updateSensor_loop exec bid now xs d))) = length (issued d) + length xs"
proof (induction xs arbitrary: d)
  case Nil
  show ?case by simp
next
  case (Cons x xs)
  obtain r d' where step: "updateSensor_step exec bid now x d = (r, d')"
    by (cases "updateSensor_step exec bid now x d")
  show ?case
  proof (cases r)
    case (Inl e)
    with step Cons.prems show ?thesis by simp
  next
    case (Inr v)
    with step updateSensor_step_ok_issued [of exec bid now x d v]
    have len: "length (issued d') = Suc (length (issued d))" by simp
    from step Inr Cons.prems have "fst (updateSensor_loop exec bid now xs d') = Inr u" by simp
    from Cons.IH [OF this] step Inr len show ?thesis by simp
  qed
qed

text \<open>
  A batch whose descriptor \<open>x\<close> fails after the descriptors \<open>pre\<close> went through:
  the run ends where \<open>x\<close> failed, ROLLBACK is the next statement, and the rows are
  those of before the request.
\<close>

lemma updateBox_batch_failure:
  assumes built: "setStatement (updatedDevice (body req) now) = Inr sql"
    and batch: "get (body req) ''sensors'' = JArr (pre @ x # post)"
    and dev: "db_query exec (UpdateDevice sql) [boxId req] (began s) = (Inr result, d1)"
    and pre: "updateSensor_loop exec (boxId req) now pre d1 = (Inr (), d2)"
    and step: "updateSensor_step exec (boxId req) now x d2 = (Inl e, d3)"
  shows "updateBox exec now req (fresh s) =
           (Inl e, \<lparr>store = s, saved = None, issued = issued d3 @ [(Rollback, [])]\<rparr>)"
    and "length (issued d2) = length pre + 2"
proof -
  have sv1: "saved d1 = Some s"
    using db_query_saved [of "UpdateDevice sql" exec "[boxId req]" "began s"] dev
    by (simp add: data_statement_def began_def)
  have len1: "length (issued d1) = 2"
    using db_query_issued [of exec "UpdateDevice sql" "[boxId req]" "began s"] dev
    by (simp add: began_def)
  show "length (issued d2) = length pre + 2"
    using updateSensor_loop_ok_issued [of exec "boxId req" now pre d1 "()"] pre len1 by simp
  have sv3: "saved d3 = Some s"
    using updateSensor_step_saved [of exec "boxId req" now x d2]
      updateSensor_loop_saved [of exec "boxId req" now pre d1] sv1 pre step
    by simp
  have run: "updateSensor exec (get (body req) ''sensors'') (boxId req) now d1 = (Inl e, d3)"
    by (simp add: updateSensor_def batch updateSensor_loop_append pre step)
  have "updateBox exec now req (fresh s) = (Inl e, rolled_back d3)"
    using dev run by (simp add: updateBox_unfold [OF built])
  then show "updateBox exec now req (fresh s) =
           (Inl e, \<lparr>store = s, saved = None, issued = issued d3 @ [(Rollback, [])]\<rparr>)"
    by (simp add: rolled_back_saved [OF sv3])
qed

section \<open>Statements sent, in order\<close>





section \<open>The sensor batch on the relational store\<close>




section \<open>The claims\<close>

text \<open>
  C1. A sensor batch whose N-th descriptor fails: let the SET text be built and the
  device UPDATE succeed, let the descriptors \<open>pre\<close> before the N-th go through, and
  let the N-th, \<open>x\<close>, fail (its statement cannot be built, or the store refuses it),
  leaving the connection \<open>d3\<close>. Then \<^verbatim>\<open>updateBox\<close> throws that error; the last statement
  it sent is ROLLBACK, right after the ones sent up to the failure, so nothing was sent
  for the descriptors \<open>post\<close> after the N-th (at most one statement per descriptor up to
  the N-th, after BEGIN and the device UPDATE); no transaction is left open; and the rows
  are those of before the request: neither the device fields nor the sensor operations
  before the N-th persist.
\<close>

theorem updateBox_failed_descriptor_rolls_back:
  assumes built: "setStatement (updatedDevice (body req) now) = Inr sql"
    and batch: "get (body req) ''sensors'' = JArr (pre @ x # post)"
    and device_ok: "db_query exec (UpdateDevice sql) [boxId req] (began s) = (Inr result, d1)"
    and pre_ok: "updateSensor_loop exec (boxId req) now pre d1 = (Inr (), d2)"
    and x_fails: "updateSensor_step exec (boxId req) now x d2 = (Inl e, d3)"
  shows "updateBox exec now req (fresh s) =
           (Inl e, \<lparr>store = s, saved = None, issued = issued d3 @ [(Rollback, [])]\<rparr>) \<and>
         length (issued d3) \<le> length pre + 3"
proof -
  have "length (issued d3) \<le> Suc (length (issued d2))"
    using updateSensor_step_issued [of exec "boxId req" now x d2] x_fails by simp
  with updateBox_batch_failure [OF built batch device_ok pre_ok x_fails] show ?thesis by simp
qed

theorem updateBox_failed_descriptor_rolls_back_witness:
  "updateBox store_exec example_now failing_batch_request (fresh example_store) =
     (Inl (StoreError ''duplicate key''),
      \<lparr>store = example_store, saved = None,
        issued =
          [(Begin, []),
           (UpdateDevice (setText ((''name'', ''New Name'') # fixedAssignments example_now)),
            [JStr ''box-1'']),
           (UpdateSensor [(''title'', 1)] 2 3, [JStr ''A'', JStr example_now, JStr ''s1'']),
           (InsertSensor,
            [JStr ''s1'', JStr ''X'', JStr ''C'', JStr ''TempSensor'', Undefined, Undefined,
             JStr example_now, JStr ''box-1'']),
           (Rollback, [])]\<rparr>)"
proof -
  let ?req = failing_batch_request
  let ?sql = "setText ((''name'', ''New Name'') # fixedAssignments example_now)"
  let ?dev = "db_query store_exec (UpdateDevice ?sql) [boxId ?req] (began example_store)"
  let ?pre = "updateSensor_loop store_exec (boxId ?req) example_now [rename_s1] (snd ?dev)"
  let ?step = "updateSensor_step store_exec (boxId ?req) example_now create_s1 (snd ?pre)"
  have built: "setStatement (updatedDevice (body ?req) example_now) = Inr ?sql"
    by code_simp
  have batch: "get (body ?req) ''sensors'' = JArr ([rename_s1] @ create_s1 # [delete_s1])"
    by code_simp
  have dev_ok: "?dev = (Inr (projr (fst ?dev)), snd ?dev)"
    by code_simp
  have pre_ok: "?pre = (Inr (), snd ?pre)"
    by code_simp
  have x_fails: "?step = (Inl (StoreError ''duplicate key''), snd ?step)"
    by code_simp
  have sent: "issued (snd ?step) =
          [(Begin, []),
           (UpdateDevice ?sql, [JStr ''box-1'']),
           (UpdateSensor [(''title'', 1)] 2 3, [JStr ''A'', JStr example_now, JStr ''s1'']),
           (InsertSensor,
            [JStr ''s1'', JStr ''X'', JStr ''C'', JStr ''TempSensor'', Undefined, Undefined,
             JStr example_now, JStr ''box-1''])]"
    by code_simp
  from updateBox_failed_descriptor_rolls_back [OF built batch dev_ok pre_ok x_fails]
  show ?thesis unfolding sent by simp
qed





text \<open>
  C10. A request whose body has no \<^verbatim>\<open>sensors\<close> key: \<^verbatim>\<open>updateBox\<close> throws, whatever the
  device fields are, and the rows are those of before the request. When the SET text
  cannot be built it throws before it sends anything. Otherwise BEGIN and the device
  UPDATE are sent, then ROLLBACK; the error is the store's when the UPDATE fails and
  otherwise the TypeError of iterating over \<^verbatim>\<open>undefined\<close>.
\<close>

theorem updateBox_without_sensors_fails:
  assumes "get (body req) ''sensors'' = Undefined"
  shows "updateBox exec now req (fresh s) =
           (case setStatement (updatedDevice (body req) now) of
              Inl e \<Rightarrow> (Inl e, \<lparr>store = s, saved = None, issued = []\<rparr>)
            | Inr sql \<Rightarrow>
                (Inl (case exec (UpdateDevice sql) [boxId req] s of
                        Inl e \<Rightarrow> e
                      | Inr r \<Rightarrow> TypeError ''undefined is not iterable''),
                 \<lparr>store = s, saved = None,
                   issued = [(Begin, []), (UpdateDevice sql, [boxId req]), (Rollback, [])]\<rparr>))"
proof (cases "setStatement (updatedDevice (body req) now)")
  case (Inl e)
  then show ?thesis by (simp add: updateBox_unbuilt fresh_def)
next
  case (Inr sql)
  show ?thesis
    unfolding updateBox_unfold [OF Inr] Inr sum.case
    using assms
    by (simp add: db_query_data data_statement_def began_def updateSensor_def
        rolled_back_def split: sum.splits prod.splits)
qed

theorem updateBox_without_sensors_fails_witness:
  "get (body device_only_request) ''sensors'' = Undefined \<and>
   updateBox store_exec example_now device_only_request (fresh example_store) =
     (Inl (TypeError ''undefined is not iterable''),
      \<lparr>store = example_store, saved = None,
        issued =
          [(Begin, []),
           (UpdateDevice (setText ((''name'', ''New Name'') # fixedAssignments example_now)),
            [JStr ''box-1'']),
           (Rollback, [])]\<rparr>)"
proof -
  let ?req = device_only_request
  let ?sql = "setText ((''name'', ''New Name'') # fixedAssignments example_now)"
  have absent: "get (body ?req) ''sensors'' = Undefined"
    by code_simp
  have built: "setStatement (updatedDevice (body ?req) example_now) = Inr ?sql"
    by code_simp
  have bid: "boxId ?req = JStr ''box-1''"
    by code_simp
  have err: "(case store_exec (UpdateDevice ?sql) [JStr ''box-1''] example_store of
                   Inl e \<Rightarrow> e
                 | Inr r \<Rightarrow> TypeError ''undefined is not iterable'') = TypeError ''undefined is not iterable''"
    by code_simp
  from updateBox_without_sensors_fails [OF absent, of store_exec example_now example_store] absent
  show ?thesis unfolding built sum.case bid err by simp
qed









section \<open>The device UPDATE of a request without quotes\<close>





text \<open>
  C3 as stated in the claim fails, in two ways. An empty field map has no \<^verbatim>\<open>useAuth\<close>,
  and the SET clause built from it has the column \<^verbatim>\<open>useAuth\<close>. A field map whose only
  field is the name \<^verbatim>\<open>x', "description" = 'y\<close> has no description, and the SET clause
  that the store reads has the column \<^verbatim>\<open>description\<close>, which the UPDATE then writes.
\<close>

theorem absent_columns_are_set:
  "get ([] :: obj) ''useAuth'' = Undefined \<and>
   (case setStatement (updatedDevice [] example_now) of
      Inl e \<Rightarrow> None
    | Inr sql \<Rightarrow> map_option (map fst) (parse_set sql)) = Some [''updatedAt'', ''useAuth'', ''public''] \<and>
   get (body quoted_name_request) ''description'' = Undefined \<and>
   (case setStatement (updatedDevice (body quoted_name_request) example_now) of
      Inl e \<Rightarrow> None
    | Inr sql \<Rightarrow> map_option (map fst) (parse_set sql)) =
     Some [''name'', ''description'', ''updatedAt'', ''useAuth'', ''public''] \<and>
   map (\<lambda>r. get r ''description'')
     (devices (store (snd (updateBox store_exec example_now quoted_name_request
                             (fresh example_store))))) = [JStr ''y'']"
  by code_simp

text \<open>
  C3, as the code has it. Let every submitted device field print as text without a
  single quote. Then the SET clause of the UPDATE reads as a list of assignments in
  which a field of the request that is absent has no column: name, description,
  exposure, model and status under their own names, \<^verbatim>\<open>user_id\<close> as \<^verbatim>\<open>userId\<close>, and the
  location as \<^verbatim>\<open>latitude\<close> and \<^verbatim>\<open>longitude\<close>. On the relational store the UPDATE is
  executed as read and leaves a column that is not in the list as it was, in every row.
\<close>

theorem absent_fields_not_in_set_clause:
  assumes "clean (updatedDevice b now)"
  shows "\<exists>sql asg.
           setStatement (updatedDevice b now) = Inr sql \<and> parse_set sql = Some asg \<and>
           (get b ''name'' = Undefined \<longrightarrow> ''name'' \<notin> fst ` set asg) \<and>
           (get b ''description'' = Undefined \<longrightarrow> ''description'' \<notin> fst ` set asg) \<and>
           (get b ''exposure'' = Undefined \<longrightarrow> ''exposure'' \<notin> fst ` set asg) \<and>
           (get b ''model'' = Undefined \<longrightarrow> ''model'' \<notin> fst ` set asg) \<and>
           (get b ''status'' = Undefined \<longrightarrow> ''status'' \<notin> fst ` set asg) \<and>
           (get b ''user_id'' = Undefined \<longrightarrow> ''userId'' \<notin> fst ` set asg) \<and>
           (get b ''location'' = Undefined \<or> field (get b ''location'') ''lat'' = Undefined \<longrightarrow>
              ''latitude'' \<notin> fst ` set asg) \<and>
           (get b ''location'' = Undefined \<or> field (get b ''location'') ''lng'' = Undefined \<longrightarrow>
              ''longitude'' \<notin> fst ` set asg) \<and>
           store_exec (UpdateDevice sql) [bid] s =
             Inr (\<lparr>rows = map (assigned asg) (filter (matches (bindv bid)) (devices s)),
                    rowCount = length (filter (matches (bindv bid)) (devices s))\<rparr>,
                  s\<lparr>devices := map (\<lambda>r. if matches (bindv bid) r then assigned asg r else r)
                                    (devices s)\<rparr>) \<and>
           (\<forall>c r. c \<notin> fst ` set asg \<longrightarrow> get (assigned asg r) c = get r c)"
proof -
  let ?ud = "updatedDevice b now"
  let ?asg = "spliced ?ud"
  have n1: "get b ''name'' = Undefined \<longrightarrow> ''name'' \<notin> fst ` set ?asg"
    unfolding spliced_columns by (auto simp: updatedDevice_def)
  have n2: "get b ''description'' = Undefined \<longrightarrow> ''description'' \<notin> fst ` set ?asg"
    unfolding spliced_columns by (auto simp: updatedDevice_def)
  have n3: "get b ''exposure'' = Undefined \<longrightarrow> ''exposure'' \<notin> fst ` set ?asg"
    unfolding spliced_columns by (auto simp: updatedDevice_def)
  have n4: "get b ''model'' = Undefined \<longrightarrow> ''model'' \<notin> fst ` set ?asg"
    unfolding spliced_columns by (auto simp: updatedDevice_def)
  have n5: "get b ''status'' = Undefined \<longrightarrow> ''status'' \<notin> fst ` set ?asg"
    unfolding spliced_columns by (auto simp: updatedDevice_def)
  have n6: "get b ''user_id'' = Undefined \<longrightarrow> ''userId'' \<notin> fst ` set ?asg"
    unfolding spliced_columns by (auto simp: updatedDevice_def)
  have n7: "get b ''location'' = Undefined \<or> field (get b ''location'') ''lat'' = Undefined \<longrightarrow>
              ''latitude'' \<notin> fst ` set ?asg"
    unfolding spliced_columns by (auto simp: updatedDevice_def)
  have n8: "get b ''location'' = Undefined \<or> field (get b ''location'') ''lng'' = Undefined \<longrightarrow>
              ''longitude'' \<notin> fst ` set ?asg"
    unfolding spliced_columns by (auto simp: updatedDevice_def)
  have keep: "\<forall>c r. c \<notin> fst ` set ?asg \<longrightarrow> get (assigned ?asg r) c = get r c"
    using get_assigned_other by blast
  note built_read = updatedDevice_text [OF assms]
  note upd = store_exec_clean_update [OF assms, of bid s]
  show ?thesis
    by (rule exI [of _ "setText ?asg"], rule exI [of _ ?asg], intro conjI)
       (fact built_read n1 n2 n3 n4 n5 n6 n7 n8 upd keep)+
qed

theorem absent_fields_not_in_set_clause_witness:
  "clean (updatedDevice (body rename_box_request) example_now) \<and>
   get (body rename_box_request) ''description'' = Undefined \<and>
   get (body rename_box_request) ''location'' = Undefined \<and>
   (case setStatement (updatedDevice (body rename_box_request) example_now) of
      Inl e \<Rightarrow> None
    | Inr sql \<Rightarrow> map_option (map fst) (parse_set sql)) =
     Some [''name'', ''updatedAt'', ''useAuth'', ''public''] \<and>
   (\<exists>asg. parse_set (setText ((''name'', ''New Name'') # fixedAssignments example_now)) = Some asg \<and>
      ''description'' \<notin> fst ` set asg \<and> ''latitude'' \<notin> fst ` set asg \<and>
      ''longitude'' \<notin> fst ` set asg)"
proof -
  let ?b = "body rename_box_request"
  let ?A = "(''name'', ''New Name'') # fixedAssignments example_now"
  have cl: "clean (updatedDevice ?b example_now)" by code_simp
  have d: "get ?b ''description'' = Undefined" by code_simp
  have l: "get ?b ''location'' = Undefined" by code_simp
  have built: "setStatement (updatedDevice ?b example_now) = Inr (setText ?A)" by code_simp
  have cols: "(case setStatement (updatedDevice ?b example_now) of
      Inl e \<Rightarrow> None
    | Inr sql \<Rightarrow> map_option (map fst) (parse_set sql)) =
     Some [''name'', ''updatedAt'', ''useAuth'', ''public'']" by code_simp
  from absent_fields_not_in_set_clause [OF cl, of "JStr ''box-1''" example_store]
  obtain sql asg where s: "setStatement (updatedDevice ?b example_now) = Inr sql"
    and a: "parse_set sql = Some asg"
    and nd: "get ?b ''description'' = Undefined \<longrightarrow> ''description'' \<notin> fst ` set asg"
    and nlat: "get ?b ''location'' = Undefined \<or> field (get ?b ''location'') ''lat'' = Undefined \<longrightarrow>
              ''latitude'' \<notin> fst ` set asg"
    and nlng: "get ?b ''location'' = Undefined \<or> field (get ?b ''location'') ''lng'' = Undefined \<longrightarrow>
              ''longitude'' \<notin> fst ` set asg"
    by (elim exE conjE) (rule that, assumption+)
  from s built have "sql = setText ?A" by simp
  with a nd nlat nlng d l have
    "\<exists>asg. parse_set (setText ?A) = Some asg \<and> ''description'' \<notin> fst ` set asg \<and>
     ''latitude'' \<notin> fst ` set asg \<and> ''longitude'' \<notin> fst ` set asg"
    by (intro exI [of _ asg]) simp
  with cl d l cols show ?thesis by (intro conjI)
qed

text \<open>
  C7 as stated in the claim fails: with no device field and an empty batch the device
  UPDATE is sent all the same, and it changes the row of \<^verbatim>\<open>box-1\<close>.
\<close>

theorem empty_update_writes:
  "body empty_request = [(''sensors'', JArr [])] \<and>
   \<not> isl (fst (updateBox store_exec example_now empty_request (fresh example_store))) \<and>
   (UpdateDevice (setText (fixedAssignments example_now)), [JStr ''box-1'']) \<in>
     set (issued (snd (updateBox store_exec example_now empty_request (fresh example_store)))) \<and>
   store (snd (updateBox store_exec example_now empty_request (fresh example_store))) \<noteq> example_store"
  by code_simp

text \<open>
  C7, as the code has it. In a request with no device field and an empty batch the SET
  text is not empty: it is the three assignments of \<^verbatim>\<open>updatedAt\<close>, \<^verbatim>\<open>useAuth\<close> and
  \<^verbatim>\<open>public\<close>, and it reads back as these. \<^verbatim>\<open>updateBox\<close> sends that UPDATE after BEGIN and
  never skips it; the request returns, after COMMIT, exactly when the store runs the
  UPDATE, and otherwise throws the store's error after ROLLBACK with the rows as they
  were. On the relational store the UPDATE writes the three values into every Device row
  whose identifier is the one of the request, and into no row when there is none.
\<close>

theorem updateBox_empty_request:
  assumes "now \<noteq> []" and "CHR 0x27 \<notin> set now"
    and "get (body req) ''sensors'' = JArr []"
    and "get (body req) ''name'' = Undefined" and "get (body req) ''description'' = Undefined"
    and "get (body req) ''exposure'' = Undefined" and "get (body req) ''model'' = Undefined"
    and "get (body req) ''status'' = Undefined" and "get (body req) ''location'' = Undefined"
    and "get (body req) ''user_id'' = Undefined"
  shows "setStatement (updatedDevice (body req) now) = Inr (setText (fixedAssignments now)) \<and>
         parse_set (setText (fixedAssignments now)) = Some (fixedAssignments now) \<and>
         updateBox exec now req (fresh s) =
           (case exec (UpdateDevice (setText (fixedAssignments now))) [boxId req] s of
              Inl e \<Rightarrow>
                (Inl e,
                 \<lparr>store = s, saved = None,
                   issued = [(Begin, []),
                             (UpdateDevice (setText (fixedAssignments now)), [boxId req]),
                             (Rollback, [])]\<rparr>)
            | Inr (r, s') \<Rightarrow>
                (Inr (JObj [(''code'', JStr ''Ok''), (''data'', JObj (updatedDevice (body req) now))],
                      rows0 r),
                 \<lparr>store = s', saved = None,
                   issued = [(Begin, []),
                             (UpdateDevice (setText (fixedAssignments now)), [boxId req]),
                             (Commit, [])]\<rparr>)) \<and>
         store_exec (UpdateDevice (setText (fixedAssignments now))) [boxId req] s =
           Inr (\<lparr>rows = map (assigned (fixedAssignments now))
                          (filter (matches (bindv (boxId req))) (devices s)),
                  rowCount = length (filter (matches (bindv (boxId req))) (devices s))\<rparr>,
                s\<lparr>devices := map (\<lambda>r. if matches (bindv (boxId req)) r
                                        then assigned (fixedAssignments now) r else r)
                                  (devices s)\<rparr>) \<and>
         (\<forall>r. get (assigned (fixedAssignments now) r) ''updatedAt'' = JStr now \<and>
              get (assigned (fixedAssignments now) r) ''useAuth'' = JStr ''true'' \<and>
              get (assigned (fixedAssignments now) r) ''public'' = JStr ''true'')"
proof -
  let ?ud = "updatedDevice (body req) now"
  let ?A = "fixedAssignments now"
  have sp: "spliced ?ud = ?A"
    using assms by (simp add: spliced_def updatedDevice_def fixedAssignments_def)
  have cl: "clean ?ud"
    using assms by (simp add: clean_def updatedDevice_def quote_free_def)
  note built_read = updatedDevice_text [OF cl, unfolded sp]
  have run: "updateBox exec now req (fresh s) =
           (case exec (UpdateDevice (setText ?A)) [boxId req] s of
              Inl e \<Rightarrow>
                (Inl e,
                 \<lparr>store = s, saved = None,
                   issued = [(Begin, []), (UpdateDevice (setText ?A), [boxId req]), (Rollback, [])]\<rparr>)
            | Inr (r, s') \<Rightarrow>
                (Inr (JObj [(''code'', JStr ''Ok''), (''data'', JObj ?ud)], rows0 r),
                 \<lparr>store = s', saved = None,
                   issued = [(Begin, []), (UpdateDevice (setText ?A), [boxId req]), (Commit, [])]\<rparr>))"
    unfolding updateBox_unfold [OF built_read(1)] assms(3)
    by (simp add: db_query_data data_statement_def began_def updateSensor_def rolled_back_def
        split: sum.splits prod.splits del: store_exec.simps)
  have dist: "distinct (map fst ?A)" by (simp add: fixedAssignments_def)
  have rows: "\<forall>r. get (assigned ?A r) ''updatedAt'' = JStr now \<and>
              get (assigned ?A r) ''useAuth'' = JStr ''true'' \<and>
              get (assigned ?A r) ''public'' = JStr ''true''"
    using get_assigned_member [OF dist, of "''updatedAt''" now]
      get_assigned_member [OF dist, of "''useAuth''" "''true''"]
      get_assigned_member [OF dist, of "''public''" "''true''"]
    by (simp add: fixedAssignments_def)
  note upd = store_exec_clean_update [OF cl, of "boxId req" s, unfolded sp]
  show ?thesis by (intro conjI) (fact built_read run upd rows)+
qed

theorem updateBox_empty_request_witness:
  "example_now \<noteq> [] \<and> CHR 0x27 \<notin> set example_now \<and> body empty_request = [(''sensors'', JArr [])] \<and>
   updateBox store_exec example_now empty_request (fresh example_store) =
     (Inr (JObj [(''code'', JStr ''Ok''),
                 (''data'', JObj (updatedDevice (body empty_request) example_now))],
           JObj [(''id'', JStr ''box-1''), (''name'', JStr ''Old Name''), (''useAuth'', JStr ''true''),
                 (''updatedAt'', JStr example_now), (''public'', JStr ''true'')]),
      \<lparr>store = \<lparr>devices = [[(''id'', JStr ''box-1''), (''name'', JStr ''Old Name''),
                               (''useAuth'', JStr ''true''), (''updatedAt'', JStr example_now),
                               (''public'', JStr ''true'')]],
                 sensors = sensors example_store\<rparr>,
        saved = None,
        issued =
          [(Begin, []),
           (UpdateDevice (setText (fixedAssignments example_now)), [JStr ''box-1'']),
           (Commit, [])]\<rparr>)"
proof -
  let ?req = empty_request
  have ne: "example_now \<noteq> []" by code_simp
  have nq: "CHR 0x27 \<notin> set example_now" by code_simp
  have b: "body ?req = [(''sensors'', JArr [])]" by code_simp
  have h: "get (body ?req) ''sensors'' = JArr []" "get (body ?req) ''name'' = Undefined"
    "get (body ?req) ''description'' = Undefined" "get (body ?req) ''exposure'' = Undefined"
    "get (body ?req) ''model'' = Undefined" "get (body ?req) ''status'' = Undefined"
    "get (body ?req) ''location'' = Undefined" "get (body ?req) ''user_id'' = Undefined"
    by code_simp+
  have bid: "boxId ?req = JStr ''box-1''" by code_simp
  have ex: "store_exec (UpdateDevice (setText (fixedAssignments example_now)))
              [JStr ''box-1''] example_store =
            Inr (\<lparr>rows = [[(''id'', JStr ''box-1''), (''name'', JStr ''Old Name''),
                             (''useAuth'', JStr ''true''), (''updatedAt'', JStr example_now),
                             (''public'', JStr ''true'')]], rowCount = 1\<rparr>,
                 \<lparr>devices = [[(''id'', JStr ''box-1''), (''name'', JStr ''Old Name''),
                               (''useAuth'', JStr ''true''), (''updatedAt'', JStr example_now),
                               (''public'', JStr ''true'')]],
                   sensors = sensors example_store\<rparr>)"
    by code_simp
  from updateBox_empty_request [OF ne nq h, of store_exec example_store]
  have "updateBox store_exec example_now ?req (fresh example_store) =
           (case store_exec (UpdateDevice (setText (fixedAssignments example_now))) [boxId ?req] example_store of
              Inl e \<Rightarrow>
                (Inl e,
                 \<lparr>store = example_store, saved = None,
                   issued = [(Begin, []),
                             (UpdateDevice (setText (fixedAssignments example_now)), [boxId ?req]),
                             (Rollback, [])]\<rparr>)
            | Inr (r, s') \<Rightarrow>
                (Inr (JObj [(''code'', JStr ''Ok''), (''data'', JObj (updatedDevice (body ?req) example_now))],
                      rows0 r),
                 \<lparr>store = s', saved = None,
                   issued = [(Begin, []),
                             (UpdateDevice (setText (fixedAssignments example_now)), [boxId ?req]),
                             (Commit, [])]\<rparr>))"
    by (elim conjE)
  then show ?thesis unfolding bid ex using ne nq b by (simp add: rows0_def)
qed

section \<open>\<^verbatim>\<open>postNewBox\<close> on the relational store\<close>

text \<open>\<^verbatim>\<open>postNewBox\<close> on a connection with no open transaction, with the \<^verbatim>\<open>try\<close>/\<^verbatim>\<open>catch\<close> written out.\<close>

lemma postNewBox_unfold:
  "postNewBox exec uuid now req (fresh s) =
     (case newDevice uuid now req of
        Inl e \<Rightarrow> (Inl e, rolled_back (began s))
      | Inr nd \<Rightarrow>
          (case db_query exec (InsertDevice (devicePlaceholders nd)) (deviceValues nd) (began s) of
             (Inl e, d1) \<Rightarrow> (Inl e, rolled_back d1)
           | (Inr newBox, d1) \<Rightarrow>
               (case read_prop (rows0 newBox) ''id'' of
                  Inl e \<Rightarrow> (Inl e, rolled_back d1)
                | Inr newId \<Rightarrow>
                    (case iterate (get nd ''sensors'') of
                       Inl e \<Rightarrow> (Inl e, rolled_back d1)
                     | Inr sensorList \<Rightarrow>
                         (case insertSensor_loop exec newId now sensorList d1 of
                            (Inl e, d2) \<Rightarrow> (Inl e, rolled_back d2)
                          | (Inr u, d2) \<Rightarrow>
                              (Inr newId, d2\<lparr>saved := None, issued := issued d2 @ [(Commit, [])]\<rparr>))))))"
  unfolding postNewBox_def try_catch_def bind_io_def begin_fresh prod.case sum.case lift_io_def
  by (simp add: return_io_def throw_def rolled_back_def split: sum.splits prod.splits)

lemma insertSensor_step_saved: "saved (snd (insertSensor_step exec newId now x d)) = saved d"
  using db_query_saved [of InsertBoxSensor exec _ d]
  by (auto simp: insertSensor_step_def data_statement_def split: sum.splits prod.splits)

lemma insertSensor_loop_saved: "saved (snd (insertSensor_loop exec newId now xs d)) = saved d"
proof (induction xs arbitrary: d)
  case Nil
  show ?case by simp
next
  case (Cons x xs)
  obtain r d' where step: "insertSensor_step exec newId now x d = (r, d')"
    by (cases "insertSensor_step exec newId now x d")
  with insertSensor_step_saved [of exec newId now x d] have s: "saved d' = saved d" by simp
  show ?case
  proof (cases r)
    case (Inl e)
    with step s show ?thesis by simp
  next
    case (Inr u)
    with step s Cons.IH [of d'] show ?thesis by simp
  qed
qed

text \<open>A sensor INSERT that the store accepts appends one row, which refers to the device.\<close>

lemma insertSensor_step_row:
  assumes "insertSensor_step store_exec newId now x d = (Inr u, d')"
  shows "\<exists>row vals. d' = d\<lparr>store := (store d)\<lparr>sensors := sensors (store d) @ [row]\<rparr>,
                              issued := issued d @ [(InsertBoxSensor, vals)]\<rparr> \<and>
                     get row ''deviceId'' = bindv newId"
proof -
  from assms obtain sid where sid: "read_prop x ''id'' = Inr sid"
    by (cases "read_prop x ''id''") (auto simp: insertSensor_step_def)
  let ?vals = "[sid, field x ''title'', field x ''unit'', field x ''sensorType'', newId,
                JStr (sqlTimestamp now)]"
  let ?row = "zip boxSensorColumns (map bindv ?vals)"
  have dev: "get ?row ''deviceId'' = bindv newId"
    by (simp add: boxSensorColumns_def get_def)
  from assms sid have "insert_sensor boxSensorColumns ?vals (store d) =
      Inr (\<lparr>rows = [], rowCount = 1\<rparr>, (store d)\<lparr>sensors := sensors (store d) @ [?row]\<rparr>) \<and>
      d' = d\<lparr>store := (store d)\<lparr>sensors := sensors (store d) @ [?row]\<rparr>,
              issued := issued d @ [(InsertBoxSensor, ?vals)]\<rparr>"
    by (auto simp: insertSensor_step_def insert_sensor_def Let_def split: if_splits)
  with dev show ?thesis by blast
qed

lemma insertSensor_loop_rows:
  "insertSensor_loop store_exec newId now xs d = (Inr u, d') \<Longrightarrow>
   devices (store d') = devices (store d) \<and>
   (\<exists>new. sensors (store d') = sensors (store d) @ new \<and> length new = length xs \<and>
      (\<forall>r \<in> set new. get r ''deviceId'' = bindv newId)) \<and>
   map fst (issued d') = map fst (issued d) @ replicate (length xs) InsertBoxSensor"
proof (induction xs arbitrary: d)
  case Nil
  then show ?case by simp
next
  case (Cons x xs)
  obtain r d1 where step: "insertSensor_step store_exec newId now x d = (r, d1)"
    by (cases "insertSensor_step store_exec newId now x d")
  with Cons.prems obtain v where r: "r = Inr v" by (cases r) auto
  from insertSensor_step_row [of newId now x d v d1] step r
  obtain row vals where d1: "d1 = d\<lparr>store := (store d)\<lparr>sensors := sensors (store d) @ [row]\<rparr>,
                              issued := issued d @ [(InsertBoxSensor, vals)]\<rparr>"
    and row: "get row ''deviceId'' = bindv newId" by blast
  from Cons.prems step r have "insertSensor_loop store_exec newId now xs d1 = (Inr u, d')" by simp
  from Cons.IH [OF this] obtain new where
    dv: "devices (store d') = devices (store d1)" and
    sn: "sensors (store d') = sensors (store d1) @ new" and
    ln: "length new = length xs" and
    al: "\<forall>r \<in> set new. get r ''deviceId'' = bindv newId" and
    sent: "map fst (issued d') = map fst (issued d1) @ replicate (length xs) InsertBoxSensor"
    by blast
  have "sensors (store d') = sensors (store d) @ (row # new)" using sn d1 by simp
  moreover have "length (row # new) = length (x # xs)" using ln by simp
  moreover have "\<forall>r \<in> set (row # new). get r ''deviceId'' = bindv newId" using al row by simp
  moreover have "devices (store d') = devices (store d)" using dv d1 by simp
  moreover have "map fst (issued d') = map fst (issued d) @ replicate (length (x # xs)) InsertBoxSensor"
    using sent d1 by (simp add: replicate_app_Cons_same)
  ultimately show ?case by blast
qed

text \<open>The device INSERT that the store accepts appends the row of the new identifier and returns it.\<close>

lemma newDevice_id:
  "newDevice uuid now req = Inr nd \<Longrightarrow>
   get nd ''id'' = JStr uuid \<and> get nd ''sensors'' = get (body req) ''sensors''"
  by (auto simp: newDevice_def Let_def get_def split: sum.splits)

lemma insert_device_row:
  assumes "db_query store_exec (InsertDevice ph) (deviceValues nd) d = (Inr newBox, d1)"
    and "get nd ''id'' = JStr uuid"
  shows "\<exists>row. d1 = d\<lparr>store := (store d)\<lparr>devices := devices (store d) @ [row]\<rparr>,
                         issued := issued d @ [(InsertDevice ph, deviceValues nd)]\<rparr> \<and>
               get row ''id'' = JStr uuid \<and> read_prop (rows0 newBox) ''id'' = Inr (JStr uuid)"
proof -
  let ?row = "zip (deviceColumns @ ph) (map bindv (deviceValues nd))"
  have id: "get ?row ''id'' = JStr uuid"
    using assms(2) by (simp add: deviceColumns_def deviceValues_def get_def bindv_def)
  from assms(1) have "d1 = d\<lparr>store := (store d)\<lparr>devices := devices (store d) @ [?row]\<rparr>,
                         issued := issued d @ [(InsertDevice ph, deviceValues nd)]\<rparr> \<and>
      newBox = \<lparr>rows = [[(''id'', get ?row ''id'')]], rowCount = 1\<rparr>"
    by (auto simp: Let_def split: if_splits)
  with id show ?thesis
    by (auto simp: rows0_def read_prop_def nullish_def get_def)
qed

text \<open>
  C8. \<^verbatim>\<open>postNewBox\<close> with K sensor definitions, on the relational store. When it returns,
  it returns the new device identifier; the Device table has exactly one row more, the
  row of that identifier; the Sensor table has exactly K rows more, each referring to
  that identifier (none when K is 0); and what was sent is BEGIN, one device INSERT, K
  sensor INSERTs and COMMIT. When it throws, the last statement sent is ROLLBACK and the
  rows are those of before the request. In both cases no transaction is left open.
\<close>

theorem postNewBox_rows:
  assumes defs: "get (body req) ''sensors'' = JArr defs"
  shows "case postNewBox store_exec uuid now req (fresh s) of
           (Inr newId, d') \<Rightarrow>
             newId = JStr uuid \<and> saved d' = None \<and>
             (\<exists>dev. devices (store d') = devices s @ [dev] \<and> get dev ''id'' = JStr uuid) \<and>
             (\<exists>new. sensors (store d') = sensors s @ new \<and> length new = length defs \<and>
                (\<forall>r \<in> set new. get r ''deviceId'' = JStr uuid)) \<and>
             (\<exists>extra. map fst (issued d') =
                Begin # InsertDevice extra # replicate (length defs) InsertBoxSensor @ [Commit])
         | (Inl e, d') \<Rightarrow>
             store d' = s \<and> saved d' = None \<and> last (issued d') = (Rollback, [])"
proof (cases "newDevice uuid now req")
  case (Inl e)
  then show ?thesis
    by (simp add: postNewBox_unfold rolled_back_def began_def)
next
  case (Inr nd)
  from newDevice_id [OF Inr] have ndid: "get nd ''id'' = JStr uuid"
    and nds: "get nd ''sensors'' = JArr defs" using defs by simp_all
  let ?q = "InsertDevice (devicePlaceholders nd)"
  obtain r1 d1 where q: "db_query store_exec ?q (deviceValues nd) (began s) = (r1, d1)"
    by (cases "db_query store_exec ?q (deviceValues nd) (began s)")
  from db_query_saved [of ?q store_exec "deviceValues nd" "began s"] q
  have sv1: "saved d1 = Some s" by (simp add: data_statement_def began_def)
  show ?thesis
  proof (cases r1)
    case (Inl e)
    with Inr q sv1 show ?thesis
      unfolding postNewBox_unfold by (simp add: rolled_back_def)
  next
    case r1: (Inr newBox)
    from insert_device_row [of "devicePlaceholders nd" nd "began s" newBox d1 uuid] q r1 ndid
    obtain row where d1: "d1 = (began s)\<lparr>store := (store (began s))\<lparr>devices := devices (store (began s)) @ [row]\<rparr>,
                         issued := issued (began s) @ [(?q, deviceValues nd)]\<rparr>"
      and rowid: "get row ''id'' = JStr uuid"
      and newId: "read_prop (rows0 newBox) ''id'' = Inr (JStr uuid)" by blast
    obtain r2 d2 where l: "insertSensor_loop store_exec (JStr uuid) now defs d1 = (r2, d2)"
      by (cases "insertSensor_loop store_exec (JStr uuid) now defs d1")
    from insertSensor_loop_saved [of store_exec "JStr uuid" now defs d1] l sv1
    have sv2: "saved d2 = Some s" by simp
    have run: "postNewBox store_exec uuid now req (fresh s) =
                 (case r2 of Inl e \<Rightarrow> (Inl e, rolled_back d2)
                  | Inr u \<Rightarrow> (Inr (JStr uuid), d2\<lparr>saved := None, issued := issued d2 @ [(Commit, [])]\<rparr>))"
      unfolding postNewBox_unfold Inr sum.case q r1 prod.case newId nds iterate.simps l
      by (cases r2) simp_all
    show ?thesis
    proof (cases r2)
      case (Inl e)
      with run sv2 show ?thesis by (simp add: rolled_back_def)
    next
      case r2: (Inr u)
      from insertSensor_loop_rows [of "JStr uuid" now defs d1 u d2] l r2
      obtain new where dv: "devices (store d2) = devices (store d1)"
        and sn: "sensors (store d2) = sensors (store d1) @ new"
        and ln: "length new = length defs"
        and al: "\<forall>r \<in> set new. get r ''deviceId'' = JStr uuid"
        and sent: "map fst (issued d2) = map fst (issued d1) @ replicate (length defs) InsertBoxSensor"
        by (auto simp: bindv_def)
      have "devices (store d2) = devices s @ [row]" using dv d1 by (simp add: began_def)
      moreover have "sensors (store d2) = sensors s @ new" using sn d1 by (simp add: began_def)
      moreover have "map fst (issued d2 @ [(Commit, [])]) =
          Begin # ?q # replicate (length defs) InsertBoxSensor @ [Commit]"
        using sent d1 by (simp add: began_def)
      ultimately show ?thesis
        using run r2 rowid ln al by auto
    qed
  qed
qed


theorem postNewBox_rows_witness:
  "get (body new_box_request) ''sensors'' = JArr [sensor_a, sensor_b] \<and>
   fst (postNewBox store_exec ''dev-2'' example_now new_box_request (fresh example_store)) =
     Inr (JStr ''dev-2'') \<and>
   length (devices (store (snd (postNewBox store_exec ''dev-2'' example_now new_box_request
                                  (fresh example_store))))) = 2 \<and>
   length (sensors (store (snd (postNewBox store_exec ''dev-2'' example_now new_box_request
                                  (fresh example_store))))) = 3 \<and>
   get (body clashing_box_request) ''sensors'' = JArr [sensor_a, sensor_a] \<and>
   fst (postNewBox store_exec ''dev-2'' example_now clashing_box_request (fresh example_store)) =
     Inl (StoreError ''duplicate key'') \<and>
   store (snd (postNewBox store_exec ''dev-2'' example_now clashing_box_request
                 (fresh example_store))) = example_store"
proof -
  let ?good = "postNewBox store_exec ''dev-2'' example_now new_box_request (fresh example_store)"
  let ?bad = "postNewBox store_exec ''dev-2'' example_now clashing_box_request (fresh example_store)"
  have two: "get (body new_box_request) ''sensors'' = JArr [sensor_a, sensor_b]"
    by code_simp
  have same: "get (body clashing_box_request) ''sensors'' = JArr [sensor_a, sensor_a]"
    by code_simp
  have returns: "\<not> isl (fst ?good)"
    by code_simp
  have throws: "fst ?bad = Inl (StoreError ''duplicate key'')"
    by code_simp
  have before: "length (devices example_store) = 1" "length (sensors example_store) = 1"
    by code_simp+
  obtain r d' where good: "?good = (r, d')" by (cases ?good)
  with returns obtain newId where r: "r = Inr newId" by (cases r) auto
  from postNewBox_rows [OF two, where uuid = "''dev-2''" and now = example_now and s = example_store] good r
  have "newId = JStr ''dev-2''"
    and "\<exists>dev. devices (store d') = devices example_store @ [dev]"
    and "\<exists>new. sensors (store d') = sensors example_store @ new \<and> length new = 2"
    by auto
  with before good r have g: "fst ?good = Inr (JStr ''dev-2'')"
    "length (devices (store (snd ?good))) = 2" "length (sensors (store (snd ?good))) = 3"
    by auto
  obtain e d'' where bad: "?bad = (Inl e, d'')" using throws by (cases ?bad) auto
  from postNewBox_rows [OF same, where uuid = "''dev-2''" and now = example_now and s = example_store] bad
  have "store (snd ?bad) = example_store" by simp
  with two same throws g show ?thesis by blast
qed

end
